theory Spec2Isabelle
  imports Complex_Main "HOL-Library.Multiset"
begin

section \<open>Data model of \<open>src/index.tsx\<close>\<close>

text \<open>
  The component \<open>Wordcloud\<close> of \<open>src/index.tsx\<close> sorts and truncates a list of words,
  formats them (font size, rotation, font attributes), hands them to a layout engine and,
  when the engine could not place every word, shrinks the font-size bounds and tries again.
  The whole pipeline is wrapped in a debounced function and triggered from a React effect.

  JavaScript numbers are modelled as \<open>real\<close> (no \<open>NaN\<close>, no rounding), counts and
  milliseconds as \<open>nat\<close>.  Fields are named as in the source; \<open>text\<close>, \<open>value\<close>,
  \<open>rotate\<close> and \<open>size\<close> carry a prefix \<open>w\<close> because the plain names are taken.
  Extra fields of a word beyond \<open>text\<close> and \<open>value\<close> are not modelled.
\<close>

record word =
  wtext :: string
  wvalue :: real

text \<open>The object built by \<open>formatWords\<close>: \<open>{...d, padding, rotate, size, font, style, weight}\<close>.\<close>

record fword = word +
  wpadding :: real
  wrotate :: real
  wsize :: real
  font :: string
  style :: string
  weight :: string

text \<open>What the layout engine reports: formatted words with their coordinates.\<close>

record pword = fword +
  px :: real
  py :: real

datatype scale_kind = Linear | Log | Sqrt

datatype spiral_kind = Archimedean | Rectangular

text \<open>\<open>types.Options\<close> with the fields of \<open>defaultOptions\<close>, and the optional \<open>rotations\<close>.\<close>

record options =
  colors :: "string list"
  deterministic :: bool
  enableTooltip :: bool
  fontFamily :: string
  fontSizes :: "real \<times> real"
  fontStyle :: string
  fontWeight :: string
  padding :: real
  rotations :: "nat option"
  rotationAngles :: "real \<times> real"
  scale :: scale_kind
  spiral :: spiral_kind
  transitionDuration :: nat
  renderDebounce :: nat
  batchSize :: nat

text \<open>\<open>types.OptionsProp\<close>: every field may be absent.\<close>

record options_prop =
  p_colors :: "string list option"
  p_deterministic :: "bool option"
  p_enableTooltip :: "bool option"
  p_fontFamily :: "string option"
  p_fontSizes :: "(real \<times> real) option"
  p_fontStyle :: "string option"
  p_fontWeight :: "string option"
  p_padding :: "real option"
  p_rotations :: "nat option"
  p_rotationAngles :: "(real \<times> real) option"
  p_scale :: "scale_kind option"
  p_spiral :: "spiral_kind option"
  p_transitionDuration :: "nat option"
  p_renderDebounce :: "nat option"
  p_batchSize :: "nat option"

text \<open>
  The collaborators that \<open>index.tsx\<close> imports and that are not part of it, as parameters:
  the generator returned by \<open>seedrandom\<close> (a state \<open>'g\<close> and the call \<open>random()\<close>, which
  returns a draw and advances the state), \<open>rotate\<close> and \<open>getFontScale\<close> of \<open>./utils\<close>,
  \<open>getDefaultColors\<close>, and the layout engine behind \<open>createCloud\<close> of \<open>./cloud\<close>, which
  calls \<open>onDone\<close> with the words it placed and may draw from the generator.
\<close>

record 'g deps =
  random :: "'g \<Rightarrow> real \<times> 'g"
  seeded :: "string \<Rightarrow> 'g"
  rotate :: "nat \<Rightarrow> real \<times> real \<Rightarrow> 'g \<Rightarrow> real \<times> 'g"
  getFontScale :: "word list \<Rightarrow> real \<times> real \<Rightarrow> scale_kind \<Rightarrow> real \<Rightarrow> real"
  getDefaultColors :: "string list"
  cloud :: "spiral_kind \<Rightarrow> real \<times> real \<Rightarrow> nat \<Rightarrow> fword list \<Rightarrow> 'g \<Rightarrow> pword list \<times> 'g"

definition MAX_LAYOUT_ATTEMPTS :: nat where
  "MAX_LAYOUT_ATTEMPTS = 10"

definition SHRINK_FACTOR :: real where
  "SHRINK_FACTOR = 95 / 100"

section \<open>Rotation\<close>

text \<open>
  \<open>~~x\<close> is JavaScript's double bitwise complement: \<open>ToInt32\<close>, which drops the fraction
  (towards zero) and wraps the integer into the signed 32-bit range.
\<close>

definition toInt32 :: "real \<Rightarrow> int" where
  "toInt32 x =
     (let t = (if 0 \<le> x then \<lfloor>x\<rfloor> else \<lceil>x\<rceil>)
      in (t + 2 ^ 31) mod 2 ^ 32 - 2 ^ 31)"

text \<open>The default rotation of a draw \<open>r\<close>: \<open>(~~(r * 6) - 3) * 30\<close>.\<close>

definition defaultRotate :: "real \<Rightarrow> real" where
  "defaultRotate r = real_of_int ((toInt32 (r * 6) - 3) * 30)"

text \<open>
  \<open>rotateWord\<close>: the test \<open>rotations ? ... : ...\<close> takes the custom branch when
  \<open>rotations\<close> is present and not \<open>0\<close>; otherwise one draw feeds the default formula.
\<close>

definition rotateWord :: "'g deps \<Rightarrow> options \<Rightarrow> 'g \<Rightarrow> real \<times> 'g" where
  "rotateWord D opts g =
     (case rotations opts of
        Some n \<Rightarrow>
          if n \<noteq> 0 then rotate D n (rotationAngles opts) g
          else (let (r, g') = random D g in (defaultRotate r, g'))
      | None \<Rightarrow> (let (r, g') = random D g in (defaultRotate r, g')))"

section \<open>Word selection\<close>

text \<open>\<open>descending\<close> of d3-array on numbers that are not \<open>NaN\<close>.\<close>

definition descending :: "real \<Rightarrow> real \<Rightarrow> int" where
  "descending a b = (if b < a then - 1 else if b > a then 1 else 0)"

text \<open>
  \<open>Array.prototype.sort\<close> with a comparator is a stable sort (ECMAScript 2019): an
  element goes before another when the comparator is negative, and elements that compare
  \<open>0\<close> keep their order.  It is modelled by insertion from the right.
\<close>

fun insort_cmp :: "('a \<Rightarrow> 'a \<Rightarrow> int) \<Rightarrow> 'a \<Rightarrow> 'a list \<Rightarrow> 'a list" where
  "insort_cmp cmp x [] = [x]"
| "insort_cmp cmp x (y # ys) =
     (if cmp x y \<le> 0 then x # y # ys else y # insort_cmp cmp x ys)"

definition array_sort :: "('a \<Rightarrow> 'a \<Rightarrow> int) \<Rightarrow> 'a list \<Rightarrow> 'a list" where
  "array_sort cmp xs = foldr (insort_cmp cmp) xs []"

definition by_value :: "word \<Rightarrow> word \<Rightarrow> int" where
  "by_value x y = descending (wvalue x) (wvalue y)"

text \<open>
  The value of \<open>words.concat().sort((x, y) => descending(x.value, y.value)).slice(0, maxWords)\<close>.
\<close>

definition sortedWords :: "word list \<Rightarrow> nat \<Rightarrow> word list" where
  "sortedWords words maxWords = take maxWords (array_sort by_value words)"

text \<open>
  The same expression on a store of arrays, to see what it does to its argument:
  \<open>concat\<close> and \<open>slice\<close> allocate a new array, \<open>sort\<close> sorts the array it is called on
  in place and returns it.  A reference to an array that does not exist is \<open>None\<close>.
\<close>

record 'a heap =
  cells :: "nat \<Rightarrow> 'a list option"
  fresh :: nat

definition alloc :: "'a list \<Rightarrow> 'a heap \<Rightarrow> nat \<times> 'a heap" where
  "alloc xs h = (fresh h, h\<lparr>cells := (cells h)(fresh h \<mapsto> xs), fresh := Suc (fresh h)\<rparr>)"

definition arr_concat :: "nat \<Rightarrow> 'a heap \<Rightarrow> (nat \<times> 'a heap) option" where
  "arr_concat a h = (case cells h a of None \<Rightarrow> None | Some xs \<Rightarrow> Some (alloc xs h))"

definition arr_sort :: "('a \<Rightarrow> 'a \<Rightarrow> int) \<Rightarrow> nat \<Rightarrow> 'a heap \<Rightarrow> (nat \<times> 'a heap) option" where
  "arr_sort cmp a h =
     (case cells h a of
        None \<Rightarrow> None
      | Some xs \<Rightarrow> Some (a, h\<lparr>cells := (cells h)(a \<mapsto> array_sort cmp xs)\<rparr>))"

definition arr_slice0 :: "nat \<Rightarrow> nat \<Rightarrow> 'a heap \<Rightarrow> (nat \<times> 'a heap) option" where
  "arr_slice0 n a h = (case cells h a of None \<Rightarrow> None | Some xs \<Rightarrow> Some (alloc (take n xs) h))"

definition sortedWords_heap :: "nat \<Rightarrow> nat \<Rightarrow> word heap \<Rightarrow> (nat \<times> word heap) option" where
  "sortedWords_heap words maxWords h =
     (case arr_concat words h of
        None \<Rightarrow> None
      | Some (a1, h1) \<Rightarrow>
          (case arr_sort by_value a1 h1 of
             None \<Rightarrow> None
           | Some (a2, h2) \<Rightarrow> arr_slice0 maxWords a2 h2))"

section \<open>Formatting\<close>

text \<open>
  \<open>formatWords\<close> maps over the words from left to right; each element calls
  \<open>rotateWord()\<close>, which advances the generator, and applies the font scale built from
  the words and the font-size bounds.
\<close>

fun formatWords_map ::
  "'g deps \<Rightarrow> options \<Rightarrow> (real \<Rightarrow> real) \<Rightarrow> word list \<Rightarrow> 'g \<Rightarrow> fword list \<times> 'g" where
  "formatWords_map D opts fontScale [] g = ([], g)"
| "formatWords_map D opts fontScale (d # ds) g =
     (let (r, g1) = rotateWord D opts g;
          w = \<lparr>wtext = wtext d, wvalue = wvalue d, wpadding = padding opts, wrotate = r,
               wsize = fontScale (wvalue d), font = fontFamily opts, style = fontStyle opts,
               weight = fontWeight opts\<rparr>;
          (ws, g2) = formatWords_map D opts fontScale ds g1
      in (w # ws, g2))"

definition formatWords ::
  "'g deps \<Rightarrow> options \<Rightarrow> word list \<Rightarrow> real \<times> real \<Rightarrow> 'g \<Rightarrow> fword list \<times> 'g" where
  "formatWords D opts words sizes g =
     formatWords_map D opts (getFontScale D words sizes (scale opts)) words g"

section \<open>The warning\<close>

text \<open>
  How a template literal prints an integer: decimal digits, with a minus sign in front of
  a negative number.
\<close>

definition digit :: "nat \<Rightarrow> char" where
  "digit n = ''0123456789'' ! n"

function decimal :: "nat \<Rightarrow> string" where
  "decimal n = (if 10 \<le> n then decimal (n div 10) @ [digit (n mod 10)] else [digit n])"
  by pat_completeness auto
termination
  by (relation "measure id") auto

declare decimal.simps [simp del]

definition number_text :: "int \<Rightarrow> string" where
  "number_text i = (if 0 \<le> i then decimal (nat i) else CHR ''-'' # decimal (nat (- i)))"

definition remedies :: string where
  "remedies = ''Consider: (1) Increasing the container/component size. (2) Lowering the max font size. (3) Limiting the rotation angles.''"

definition warning_message :: "int \<Rightarrow> nat \<Rightarrow> string" where
  "warning_message unplaced attempts =
     ''Unable to layout '' @ number_text unplaced @ '' word(s) after '' @
     decimal attempts @ '' attempts.  '' @ remedies"

section \<open>The retry loop\<close>

text \<open>
  What a run does to the outside, in order: \<open>Layout k b ws\<close> is \<open>createCloud\<close> and
  \<open>layout.start()\<close> of attempt \<open>k\<close> with bounds \<open>b\<close> and formatted words \<open>ws\<close>;
  \<open>Done k cs\<close> is the engine's call of \<open>onDone\<close> with the words it placed; \<open>Warn\<close> is
  \<open>console.warn\<close>; \<open>Stop\<close> is \<open>layout.stop()\<close>; \<open>Render\<close> is the call of \<open>render\<close>
  (its other arguments are the options, callbacks and generator of the run).
\<close>

datatype 's event =
    Layout nat "real \<times> real" "fword list"
  | Done nat "pword list"
  | Warn string
  | Stop
  | Render 's "pword list"

text \<open>
  \<open>draw\<close> when the engine finishes every attempt: the function and its \<open>onDone\<close>, with
  the recursion of the source.  The result is the list of events; the generator state is
  threaded through \<open>formatWords\<close> and the engine.
\<close>

function draw ::
  "'g deps \<Rightarrow> 's \<Rightarrow> options \<Rightarrow> real \<times> real \<Rightarrow> word list \<Rightarrow> real \<times> real \<Rightarrow> nat \<Rightarrow> 'g \<Rightarrow> 's event list" where
  "draw D selection opts sz sws sizes attempts g =
     (let (fws, g1) = formatWords D opts sws sizes g;
          (computedWords, g2) = cloud D (spiral opts) sz (batchSize opts) fws g1
      in Layout attempts sizes fws # Done attempts computedWords #
         (if length sws \<noteq> length computedWords \<and> attempts \<le> MAX_LAYOUT_ATTEMPTS then
            (if attempts = MAX_LAYOUT_ATTEMPTS
             then [Warn (warning_message (int (length sws) - int (length computedWords)) attempts)]
             else []) @
            (let minFontSize = max (fst sizes * SHRINK_FACTOR) 1;
                 maxFontSize = max (snd sizes * SHRINK_FACTOR) minFontSize
             in Stop # draw D selection opts sz sws (minFontSize, maxFontSize) (attempts + 1) g2)
          else [Render selection computedWords]))"
  by pat_completeness auto
termination
  by (relation "measure (\<lambda>(D, selection, opts, sz, sws, sizes, attempts, g).
        Suc MAX_LAYOUT_ATTEMPTS - attempts)") auto

declare draw.simps [simp del]

text \<open>Projections of a list of events.\<close>

fun layouts :: "'s event list \<Rightarrow> (nat \<times> (real \<times> real) \<times> fword list) list" where
  "layouts [] = []"
| "layouts (Layout k b ws # es) = (k, b, ws) # layouts es"
| "layouts (e # es) = layouts es"

fun dones :: "'s event list \<Rightarrow> (nat \<times> pword list) list" where
  "dones [] = []"
| "dones (Done k cs # es) = (k, cs) # dones es"
| "dones (e # es) = dones es"

fun warnings :: "'s event list \<Rightarrow> string list" where
  "warnings [] = []"
| "warnings (Warn m # es) = m # warnings es"
| "warnings (e # es) = warnings es"

fun renders :: "'s event list \<Rightarrow> ('s \<times> pword list) list" where
  "renders [] = []"
| "renders (Render s cs # es) = (s, cs) # renders es"
| "renders (e # es) = renders es"

definition bounds_seq :: "'s event list \<Rightarrow> (real \<times> real) list" where
  "bounds_seq es = map (\<lambda>(k, b, ws). b) (layouts es)"

text \<open>
  For statements about the rotations of an attempt: the angles that \<open>n\<close> successive calls
  of \<open>rotateWord()\<close> give from a state of the generator, with the state they leave; and
  the states in which the successive attempts of \<open>draw\<close> find the generator (the first
  attempt the state it is called with, every later one the state the engine of the
  attempt before left).
\<close>

fun rotateWords :: "'g deps \<Rightarrow> options \<Rightarrow> nat \<Rightarrow> 'g \<Rightarrow> real list \<times> 'g" where
  "rotateWords D opts 0 g = ([], g)"
| "rotateWords D opts (Suc n) g =
     (let (r, g1) = rotateWord D opts g;
          (rs, g2) = rotateWords D opts n g1
      in (r # rs, g2))"

function attempt_gens ::
  "'g deps \<Rightarrow> options \<Rightarrow> real \<times> real \<Rightarrow> word list \<Rightarrow> real \<times> real \<Rightarrow> nat \<Rightarrow> 'g \<Rightarrow> 'g list" where
  "attempt_gens D opts sz sws sizes attempts g =
     (let (fws, g1) = formatWords D opts sws sizes g;
          (computedWords, g2) = cloud D (spiral opts) sz (batchSize opts) fws g1
      in g #
         (if length sws \<noteq> length computedWords \<and> attempts \<le> MAX_LAYOUT_ATTEMPTS then
            (let minFontSize = max (fst sizes * SHRINK_FACTOR) 1;
                 maxFontSize = max (snd sizes * SHRINK_FACTOR) minFontSize
             in attempt_gens D opts sz sws (minFontSize, maxFontSize) (attempts + 1) g2)
          else []))"
  by pat_completeness auto
termination
  by (relation "measure (\<lambda>(D, opts, sz, sws, sizes, attempts, g).
        Suc MAX_LAYOUT_ATTEMPTS - attempts)") auto

declare attempt_gens.simps [simp del]


section \<open>The component: options, debouncing, effect\<close>

record callbacks =
  getWordTooltip :: "word \<Rightarrow> string"

record callbacks_prop =
  p_getWordTooltip :: "(word \<Rightarrow> string) option"

text \<open>The arguments of the debounced function.\<close>

record 's inputs =
  i_selection :: 's
  i_mergedOptions :: options
  i_mergedCallbacks :: callbacks
  i_size :: "real \<times> real"
  i_words :: "word list"
  i_maxWords :: nat

text \<open>
  The props the component reads itself; \<open>minSize\<close> and \<open>size\<close> only feed the hook
  \<open>useResponsiveSVGSelection\<close>, whose results are given with each rendering.
\<close>

record props =
  props_callbacks :: "callbacks_prop option"
  props_maxWords :: "nat option"
  props_options :: "options_prop option"
  props_words :: "word list"

definition defaultCallbacks :: "(real \<Rightarrow> string) \<Rightarrow> callbacks" where
  "defaultCallbacks numberToString =
     \<lparr>getWordTooltip = (\<lambda>w. wtext w @ '' ('' @ numberToString (wvalue w) @ '')'')\<rparr>"

definition defaultOptions :: "'g deps \<Rightarrow> options" where
  "defaultOptions D =
     \<lparr>colors = getDefaultColors D, deterministic = False, enableTooltip = True,
      fontFamily = ''times new roman'', fontSizes = (4, 32), fontStyle = ''normal'',
      fontWeight = ''normal'', padding = 1, rotations = None, rotationAngles = (- 90, 90),
      scale = Sqrt, spiral = Rectangular, transitionDuration = 600, renderDebounce = 100,
      batchSize = 200\<rparr>"

text \<open>The spread \<open>{ ...defaults, ...given }\<close>: a field that is given wins.\<close>

definition spread :: "'a \<Rightarrow> 'a option \<Rightarrow> 'a" where
  "spread dflt given = (case given of None \<Rightarrow> dflt | Some v \<Rightarrow> v)"

definition mergeCallbacks :: "callbacks \<Rightarrow> callbacks_prop option \<Rightarrow> callbacks" where
  "mergeCallbacks d given =
     (case given of
        None \<Rightarrow> d
      | Some p \<Rightarrow> \<lparr>getWordTooltip = spread (getWordTooltip d) (p_getWordTooltip p)\<rparr>)"

definition mergeOptions :: "options \<Rightarrow> options_prop option \<Rightarrow> options" where
  "mergeOptions d given =
     (case given of
        None \<Rightarrow> d
      | Some p \<Rightarrow>
          \<lparr>colors = spread (colors d) (p_colors p),
           deterministic = spread (deterministic d) (p_deterministic p),
           enableTooltip = spread (enableTooltip d) (p_enableTooltip p),
           fontFamily = spread (fontFamily d) (p_fontFamily p),
           fontSizes = spread (fontSizes d) (p_fontSizes p),
           fontStyle = spread (fontStyle d) (p_fontStyle p),
           fontWeight = spread (fontWeight d) (p_fontWeight p),
           padding = spread (padding d) (p_padding p),
           rotations = (case p_rotations p of None \<Rightarrow> rotations d | Some n \<Rightarrow> Some n),
           rotationAngles = spread (rotationAngles d) (p_rotationAngles p),
           scale = spread (scale d) (p_scale p),
           spiral = spread (spiral d) (p_spiral p),
           transitionDuration = spread (transitionDuration d) (p_transitionDuration p),
           renderDebounce = spread (renderDebounce d) (p_renderDebounce p),
           batchSize = spread (batchSize d) (p_batchSize p)\<rparr>)"

subsection \<open>One execution of the pipeline, event by event\<close>

text \<open>
  The state of the closure that one call of the debounced function creates: its arguments,
  \<open>sortedWords\<close>, the arguments of the current call of \<open>draw\<close>, the words handed to the
  engine, the generator, whether the layout held by the variable \<open>layout\<close> is at work, and
  what the run has done so far.
\<close>

record ('g, 's) run =
  r_inputs :: "'s inputs"
  r_sortedWords :: "word list"
  r_sizes :: "real \<times> real"
  r_attempts :: nat
  r_words :: "fword list"
  r_random :: 'g
  r_running :: bool
  r_log :: "'s event list"

text \<open>
  Modelled from the spec: the handle of the layout engine, whose module \<open>./cloud\<close> is not
  among the sources.  A layout that was started works until it calls \<open>onDone\<close> once or
  is stopped; \<open>stop()\<close> halts it for good, may be called again, and may be called after
  completion; a layout that is not at work never calls \<open>onDone\<close>.
\<close>

definition stop :: "('g, 's) run \<Rightarrow> ('g, 's) run" where
  "stop r = r\<lparr>r_running := False, r_log := r_log r @ [Stop]\<rparr>"

text \<open>The first half of \<open>draw\<close>: format, create the layout, start it.\<close>

definition draw_start :: "'g deps \<Rightarrow> real \<times> real \<Rightarrow> nat \<Rightarrow> ('g, 's) run \<Rightarrow> ('g, 's) run" where
  "draw_start D sizes attempts r =
     (let (fws, g1) = formatWords D (i_mergedOptions (r_inputs r)) (r_sortedWords r) sizes (r_random r)
      in r\<lparr>r_sizes := sizes, r_attempts := attempts, r_words := fws, r_random := g1,
            r_running := True, r_log := r_log r @ [Layout attempts sizes fws]\<rparr>)"

text \<open>
  The engine finishes the layout at work and calls \<open>onDone\<close>; for a run with no layout
  at work there is no such call.
\<close>

definition onDone :: "'g deps \<Rightarrow> ('g, 's) run \<Rightarrow> ('g, 's) run" where
  "onDone D r =
     (if \<not> r_running r then r
      else
        (let opts = i_mergedOptions (r_inputs r);
             attempts = r_attempts r;
             (computedWords, g2) =
                cloud D (spiral opts) (i_size (r_inputs r)) (batchSize opts) (r_words r) (r_random r);
             r1 = r\<lparr>r_random := g2, r_running := False,
                    r_log := r_log r @ [Done attempts computedWords]\<rparr>
         in if length (r_sortedWords r) \<noteq> length computedWords \<and> attempts \<le> MAX_LAYOUT_ATTEMPTS
            then
              (let r2 = (if attempts = MAX_LAYOUT_ATTEMPTS
                         then r1\<lparr>r_log := r_log r1 @
                                [Warn (warning_message
                                   (int (length (r_sortedWords r)) - int (length computedWords)) attempts)]\<rparr>
                         else r1);
                   minFontSize = max (fst (r_sizes r) * SHRINK_FACTOR) 1;
                   maxFontSize = max (snd (r_sizes r) * SHRINK_FACTOR) minFontSize
               in draw_start D (minFontSize, maxFontSize) (attempts + 1) (stop r2))
            else r1\<lparr>r_log := r_log r1 @ [Render (i_selection (r_inputs r)) computedWords]\<rparr>))"

text \<open>
  The body of the debounced function up to \<open>draw(fontSizes)\<close>.  \<open>seedrandom()\<close> without a
  seed takes its state from the environment: \<open>entropy\<close>.
\<close>

definition pipeline :: "'g deps \<Rightarrow> 'g \<Rightarrow> 's inputs \<Rightarrow> ('g, 's) run" where
  "pipeline D entropy inp =
     (let opts = i_mergedOptions inp;
          rnd = (if deterministic opts then seeded D ''deterministic'' else entropy);
          sws = sortedWords (i_words inp) (i_maxWords inp)
      in draw_start D (fontSizes opts) 1
           \<lparr>r_inputs = inp, r_sortedWords = sws, r_sizes = fontSizes opts, r_attempts = 1,
            r_words = [], r_random = rnd, r_running = False, r_log = []\<rparr>)"

text \<open>The same body when the engine finishes every attempt.\<close>

definition pipeline_events :: "'g deps \<Rightarrow> 'g \<Rightarrow> 's inputs \<Rightarrow> 's event list" where
  "pipeline_events D entropy inp =
     (let opts = i_mergedOptions inp;
          rnd = (if deterministic opts then seeded D ''deterministic'' else entropy);
          sws = sortedWords (i_words inp) (i_maxWords inp)
      in draw D (i_selection inp) opts (i_size inp) sws (fontSizes opts) 1 rnd)"

subsection \<open>\<open>debounce\<close>\<close>

text \<open>
  \<open>debounce(func, wait)\<close> of lodash, called without options (no leading edge, no maximal
  wait, trailing edge), as its implementation works: the state of the closure, the
  debounced function, and the callback of its timer.  A pending \<open>setTimeout\<close> is the
  time at which it is due.  The result of \<open>func\<close> is the closure that a run returns; it
  is identified by the number of the run.  The debounced function returns the result of
  the latest invocation of \<open>func\<close>, which is \<open>undefined\<close> (\<open>None\<close>) before the first.
\<close>

record 'a debounced =
  d_wait :: nat
  lastArgs :: "'a option"
  lastCallTime :: "nat option"
  timerId :: "nat option"
  d_result :: "nat option"

definition debounce :: "nat \<Rightarrow> 'a debounced" where
  "debounce w = \<lparr>d_wait = w, lastArgs = None, lastCallTime = None, timerId = None, d_result = None\<rparr>"

definition shouldInvoke :: "'a debounced \<Rightarrow> nat \<Rightarrow> bool" where
  "shouldInvoke d time =
     (case lastCallTime d of
        None \<Rightarrow> True
      | Some t \<Rightarrow> int time - int t \<ge> int (d_wait d) \<or> int time - int t < 0)"

definition remainingWait :: "'a debounced \<Rightarrow> nat \<Rightarrow> nat" where
  "remainingWait d time = (case lastCallTime d of None \<Rightarrow> 0 | Some t \<Rightarrow> d_wait d - (time - t))"

definition debounced :: "nat \<Rightarrow> 'a \<Rightarrow> 'a debounced \<Rightarrow> nat option \<times> 'a debounced" where
  "debounced time args d =
     (let isInvoking = shouldInvoke d time;
          d1 = d\<lparr>lastArgs := Some args, lastCallTime := Some time\<rparr>
      in if isInvoking \<and> timerId d1 = None
         then (d_result d1, d1\<lparr>timerId := Some (time + d_wait d1)\<rparr>)
         else if timerId d1 = None
         then (d_result d1, d1\<lparr>timerId := Some (time + d_wait d1)\<rparr>)
         else (d_result d1, d1))"

text \<open>
  \<open>timerExpired\<close>: on the trailing edge the timer is cleared and \<open>func\<close> is due with the
  last arguments, if there are any; otherwise the timer is set again for the remaining
  wait.  The first component is the arguments \<open>func\<close> is to be invoked with.
\<close>

definition timerExpired :: "nat \<Rightarrow> 'a debounced \<Rightarrow> 'a option \<times> 'a debounced" where
  "timerExpired time d =
     (if shouldInvoke d time
      then (lastArgs d, d\<lparr>timerId := None, lastArgs := None\<rparr>)
      else (None, d\<lparr>timerId := Some (time + remainingWait d time)\<rparr>))"

subsection \<open>The component instance\<close>

text \<open>
  \<open>reRender\<close> is the ref (\<open>None\<close> before the first rendering), \<open>cleanup\<close> is what the
  latest effect returned, \<open>runs\<close> are the executions of the pipeline so far.
\<close>

record ('g, 's) component =
  reRender :: "'s inputs debounced option"
  cleanup :: "nat option"
  runs :: "('g, 's) run list"

definition mount :: "('g, 's) component" where
  "mount = \<lparr>reRender = None, cleanup = None, runs = []\<rparr>"

text \<open>\<open>useRef(initial)\<close>: the initial value counts at the first rendering only.\<close>

definition useRef :: "'a option \<Rightarrow> 'a \<Rightarrow> 'a" where
  "useRef current initial = (case current of None \<Rightarrow> initial | Some v \<Rightarrow> v)"

text \<open>The closure \<open>() => { if (layout) { layout.stop() } }\<close> of run \<open>i\<close>, called.\<close>

definition invoke_handle :: "nat \<Rightarrow> ('g, 's) component \<Rightarrow> ('g, 's) component" where
  "invoke_handle i c =
     (if i < length (runs c) then c\<lparr>runs := (runs c)[i := stop (runs c ! i)]\<rparr> else c)"

text \<open>React calls what the latest effect returned, if it returned a function.\<close>

definition run_cleanup :: "('g, 's) component \<Rightarrow> ('g, 's) component" where
  "run_cleanup c =
     (case cleanup c of None \<Rightarrow> c | Some i \<Rightarrow> (invoke_handle i c)\<lparr>cleanup := None\<rparr>)"

text \<open>
  One rendering of \<open>Wordcloud\<close> at a time, with the props and what the hook gave
  (selection, size), followed by its effect.  The merged options are a new object at
  every rendering, so the effect runs after every rendering, after the cleanup of the
  effect before it.  \<open>effect_inputs\<close> are the arguments the effect passes to
  \<open>reRender.current\<close>; \<open>maxWords\<close> is \<open>100\<close> when the prop is absent.
\<close>

definition effect_inputs ::
  "'g deps \<Rightarrow> (real \<Rightarrow> string) \<Rightarrow> props \<Rightarrow> 's \<Rightarrow> real \<times> real \<Rightarrow> 's inputs" where
  "effect_inputs D numberToString p s sz =
     \<lparr>i_selection = s,
      i_mergedOptions = mergeOptions (defaultOptions D) (props_options p),
      i_mergedCallbacks = mergeCallbacks (defaultCallbacks numberToString) (props_callbacks p),
      i_size = sz,
      i_words = props_words p,
      i_maxWords = spread 100 (props_maxWords p)\<rparr>"

definition Wordcloud ::
  "'g deps \<Rightarrow> (real \<Rightarrow> string) \<Rightarrow> nat \<Rightarrow> props \<Rightarrow> 's option \<Rightarrow> real \<times> real \<Rightarrow>
     ('g, 's) component \<Rightarrow> ('g, 's) component" where
  "Wordcloud D numberToString time p sel sz c =
     (let mergedOptions = mergeOptions (defaultOptions D) (props_options p);
          ref = useRef (reRender c) (debounce (renderDebounce mergedOptions));
          c1 = (run_cleanup c)\<lparr>reRender := Some ref\<rparr>
      in case sel of
           None \<Rightarrow> c1
         | Some s \<Rightarrow>
             (let (h, ref') = debounced time (effect_inputs D numberToString p s sz) ref
              in c1\<lparr>reRender := Some ref', cleanup := h\<rparr>))"

text \<open>
  What happens to an instance: it is rendered; it is unmounted; the timer of the debounced
  function fires; the engine of a run finishes its layout.
\<close>

datatype ('g, 's) action =
    Rendered nat props "'s option" "real \<times> real"
  | Unmount
  | TimerFires nat 'g
  | EngineDone nat

definition timer_fires :: "'g deps \<Rightarrow> nat \<Rightarrow> 'g \<Rightarrow> ('g, 's) component \<Rightarrow> ('g, 's) component" where
  "timer_fires D time entropy c =
     (case reRender c of
        None \<Rightarrow> c
      | Some d \<Rightarrow>
          (case timerId d of
             None \<Rightarrow> c
           | Some due \<Rightarrow>
               if time < due then c
               else
                 (case timerExpired time d of
                    (None, d') \<Rightarrow> c\<lparr>reRender := Some d'\<rparr>
                  | (Some args, d') \<Rightarrow>
                      c\<lparr>reRender := Some (d'\<lparr>d_result := Some (length (runs c))\<rparr>),
                        runs := runs c @ [pipeline D entropy args]\<rparr>)))"

definition engine_done :: "'g deps \<Rightarrow> nat \<Rightarrow> ('g, 's) component \<Rightarrow> ('g, 's) component" where
  "engine_done D i c =
     (if i < length (runs c) then c\<lparr>runs := (runs c)[i := onDone D (runs c ! i)]\<rparr> else c)"

fun step :: "'g deps \<Rightarrow> (real \<Rightarrow> string) \<Rightarrow> ('g, 's) action \<Rightarrow> ('g, 's) component \<Rightarrow> ('g, 's) component" where
  "step D ns (Rendered time p sel sz) c = Wordcloud D ns time p sel sz c"
| "step D ns Unmount c = run_cleanup c"
| "step D ns (TimerFires time entropy) c = timer_fires D time entropy c"
| "step D ns (EngineDone i) c = engine_done D i c"

fun exec :: "'g deps \<Rightarrow> (real \<Rightarrow> string) \<Rightarrow> ('g, 's) action list \<Rightarrow> ('g, 's) component \<Rightarrow> ('g, 's) component" where
  "exec D ns [] c = c"
| "exec D ns (a # as) c = exec D ns as (step D ns a c)"

text \<open>
  For statements about an instance: a run that is not at work; what a run has done apart
  from stopping layouts; a debounced function whose timer is pending for the arguments
  \<open>a\<close> of a call at time \<open>t\<close>; renderings with a selection and firings of the timer as
  actions; the arguments a rendering submits.
\<close>

definition halted :: "nat \<Rightarrow> ('g, 's) component \<Rightarrow> bool" where
  "halted i c = (i < length (runs c) \<and> \<not> r_running (runs c ! i))"

definition observed ::
  "('g, 's) run \<Rightarrow> (nat \<times> (real \<times> real) \<times> fword list) list \<times> (nat \<times> pword list) list \<times>
     string list \<times> ('s \<times> pword list) list" where
  "observed r = (layouts (r_log r), dones (r_log r), warnings (r_log r), renders (r_log r))"






section \<open>A concrete environment\<close>

text \<open>
  Collaborators to run the definitions on: a generator that counts its calls and returns
  the draws \<open>0, 1/6, 2/6, ..., 5/6, 0, ...\<close>; a font scale that gives every word the upper bound;
  an engine that places, at the origin, the words whose size is at most \<open>limit\<close> and
  leaves the generator alone.
\<close>

definition place :: "fword \<Rightarrow> pword" where
  "place w = \<lparr>wtext = wtext w, wvalue = wvalue w, wpadding = wpadding w, wrotate = wrotate w,
              wsize = wsize w, font = font w, style = style w, weight = weight w, px = 0, py = 0\<rparr>"

definition example_deps :: "real \<Rightarrow> nat deps" where
  "example_deps limit =
     \<lparr>random = (\<lambda>n. (real (n mod 6) / 6, Suc n)),
      seeded = (\<lambda>s. 0),
      rotate = (\<lambda>n angles g. (fst angles, g)),
      getFontScale = (\<lambda>ws sizes sc v. snd sizes),
      getDefaultColors = [],
      cloud = (\<lambda>sp sz bs ws g. (map place (filter (\<lambda>w. wsize w \<le> limit) ws), g))\<rparr>"

definition example_words :: "word list" where
  "example_words = [\<lparr>wtext = ''a'', wvalue = 10\<rparr>, \<lparr>wtext = ''b'', wvalue = 1\<rparr>]"

definition example_props :: "nat \<Rightarrow> word list \<Rightarrow> props" where
  "example_props w ws =
     \<lparr>props_callbacks = None, props_maxWords = None,
      props_options = Some
        \<lparr>p_colors = None, p_deterministic = Some True, p_enableTooltip = None,
         p_fontFamily = None, p_fontSizes = None, p_fontStyle = None, p_fontWeight = None,
         p_padding = None, p_rotations = None, p_rotationAngles = None, p_scale = None,
         p_spiral = None, p_transitionDuration = None, p_renderDebounce = Some w,
         p_batchSize = None\<rparr>,
      props_words = ws\<rparr>"

definition number_string :: "real \<Rightarrow> string" where
  "number_string x = number_text \<lfloor>x\<rfloor>"

definition tied_words :: "word list" where
  "tied_words = [\<lparr>wtext = ''a'', wvalue = 1\<rparr>, \<lparr>wtext = ''b'', wvalue = 10\<rparr>, \<lparr>wtext = ''c'', wvalue = 1\<rparr>]"

definition example_heap :: "word heap" where
  "example_heap = \<lparr>cells = [0 \<mapsto> tied_words], fresh = 1\<rparr>"

text \<open>
  An instance that is rendered at time \<open>0\<close>, whose pipeline runs at \<open>100\<close> and is
  finished by the engine in three attempts; a second rendering with other words at
  \<open>200\<close>; and what follows when the instance is then unmounted.
\<close>

definition first_submission :: "(nat, unit) action list" where
  "first_submission =
     [Rendered 0 (example_props 100 example_words) (Some ()) (300, 300), TimerFires 100 0,
      EngineDone 0, EngineDone 0, EngineDone 0]"

definition second_submission :: "(nat, unit) action list" where
  "second_submission = [Rendered 200 (example_props 100 tied_words) (Some ()) (300, 300)]"

definition unmount_then_timer :: "(nat, unit) action list" where
  "unmount_then_timer = [Unmount, TimerFires 300 0, EngineDone 1, EngineDone 1, EngineDone 1]"

text \<open>An instance whose first pipeline run has its first layout at work.\<close>

definition in_flight :: "(nat, unit) component" where
  "in_flight = exec (example_deps 30) number_string
     [Rendered 0 (example_props 100 example_words) (Some ()) (300, 300), TimerFires 100 0] mount"


section \<open>Rotation: the default angles\<close>

lemma toInt32_small: "0 \<le> x \<Longrightarrow> x < 6 \<Longrightarrow> toInt32 x = \<lfloor>x\<rfloor>"
proof -
  assume a: "0 \<le> x" "x < 6"
  have "0 \<le> \<lfloor>x\<rfloor>" using a by simp
  moreover have "\<lfloor>x\<rfloor> < 6" using a by (simp add: floor_less_iff)
  ultimately show ?thesis using a by (simp add: toInt32_def)
qed

lemma defaultRotate_range:
  assumes "0 \<le> r" "r < 1"
  shows "defaultRotate r = real_of_int ((\<lfloor>r * 6\<rfloor> - 3) * 30) \<and>
         defaultRotate r \<in> {- 90, - 60, - 30, 0, 30, 60}"
proof -
  have a: "0 \<le> r * 6" "r * 6 < 6" using assms by simp_all
  define k where "k = \<lfloor>r * 6\<rfloor>"
  have f: "0 \<le> k" "k < 6" using a by (simp_all add: floor_less_iff k_def)
  have d: "defaultRotate r = real_of_int ((k - 3) * 30)"
    by (simp add: defaultRotate_def toInt32_small[OF a] k_def)
  from f have "k = 0 \<or> k = 1 \<or> k = 2 \<or> k = 3 \<or> k = 4 \<or> k = 5" by arith
  then have "defaultRotate r \<in> {- 90, - 60, - 30, 0, 30, 60}"
    unfolding d by auto
  with d show ?thesis by (simp add: k_def)
qed

text \<open>
  Claim C8.  Without a custom rotation strategy (\<open>rotations\<close> absent), a draw \<open>r\<close> of the
  generator with \<open>0 \<le> r < 1\<close> gives the angle \<open>(floor (r * 6) - 3) * 30\<close>, which is one
  of \<open>-90, -60, -30, 0, 30, 60\<close>.
\<close>

theorem default_rotation_values:
  assumes "rotations opts = None" and "random D g = (r, g')" and "0 \<le> r" and "r < 1"
  shows "fst (rotateWord D opts g) = real_of_int ((\<lfloor>r * 6\<rfloor> - 3) * 30) \<and>
         fst (rotateWord D opts g) \<in> {- 90, - 60, - 30, 0, 30, 60}"
proof -
  have e: "fst (rotateWord D opts g) = defaultRotate r"
    using assms(1,2) by (simp add: rotateWord_def)
  show ?thesis unfolding e by (rule defaultRotate_range[OF assms(3,4)])
qed

theorem default_rotation_values_witness:
  "rotations (defaultOptions (example_deps 0)) = None \<and>
   random (example_deps 0) 3 = (1 / 2, 4) \<and> (0::real) \<le> 1 / 2 \<and> (1 / 2 :: real) < 1 \<and>
   fst (rotateWord (example_deps 0) (defaultOptions (example_deps 0)) 3) = 0"
proof -
  have h1: "rotations (defaultOptions (example_deps 0)) = None" by (simp add: defaultOptions_def)
  have h2: "random (example_deps 0) 3 = (1 / 2, 4)" by (simp add: example_deps_def)
  have h3: "(0::real) \<le> 1 / 2" and h4: "(1 / 2 :: real) < 1" by simp_all
  from default_rotation_values[OF h1 h2 h3 h4] h1 h2 show ?thesis by simp
qed

section \<open>Word selection\<close>

lemma insort_by_value: "insort_cmp by_value x ys = insort_key (\<lambda>w. - wvalue w) x ys"
  by (induction ys) (auto simp: by_value_def descending_def)

lemma array_sort_by_value: "array_sort by_value xs = sort_key (\<lambda>w. - wvalue w) xs"
  by (induction xs) (simp_all add: array_sort_def insort_by_value)

lemma array_sort_desc: "sorted_wrt (\<lambda>a b. wvalue b \<le> wvalue a) (array_sort by_value xs)"
proof -
  have "sorted (map (\<lambda>w. - wvalue w) (sort_key (\<lambda>w. - wvalue w) xs))" by (rule sorted_sort_key)
  then show ?thesis by (simp add: array_sort_by_value sorted_wrt_map)
qed

lemma array_sort_stable:
  "filter (\<lambda>w. wvalue w = v) (array_sort by_value xs) = filter (\<lambda>w. wvalue w = v) xs"
  using sort_key_stable[of "\<lambda>w. - wvalue w" "- v" xs] by (simp add: array_sort_by_value)

lemma array_sort_mset: "mset (array_sort by_value xs) = mset xs"
  by (simp add: array_sort_by_value)

lemma sortedWords_length: "length (sortedWords ws n) = min (length ws) n"
proof -
  have "length (array_sort by_value ws) = length ws"
    using array_sort_mset[of ws] by (metis size_mset)
  then show ?thesis by (simp add: sortedWords_def min.commute)
qed

lemma sortedWords_desc: "sorted_wrt (\<lambda>a b. wvalue b \<le> wvalue a) (sortedWords ws n)"
  unfolding sortedWords_def by (rule sorted_wrt_take[OF array_sort_desc])

lemma sortedWords_heap_eq:
  assumes "cells h a = Some ws" "a < fresh h"
  shows "sortedWords_heap a n h =
     Some (Suc (fresh h),
       h\<lparr>cells := (cells h)(fresh h \<mapsto> array_sort by_value ws, Suc (fresh h) \<mapsto> sortedWords ws n),
         fresh := Suc (Suc (fresh h))\<rparr>)"
  using assms
  by (simp add: sortedWords_heap_def arr_concat_def arr_sort_def arr_slice0_def alloc_def sortedWords_def)

text \<open>
  Claim C7.  For a word list \<open>ws\<close> stored at \<open>a\<close> and every \<open>maxWords\<close>, the selection
  returns a new array and leaves every array that existed before, the input among them,
  as it was.  The result has \<open>min (length ws) maxWords\<close> elements and is sorted by value,
  descending; it is the first \<open>maxWords\<close> elements of a rearrangement of \<open>ws\<close> in which
  words of equal value keep their order.  An empty input gives an empty result.
\<close>

theorem sortedWords_contract:
  assumes "cells h a = Some ws" and "a < fresh h"
  shows "\<exists>a' h'. sortedWords_heap a maxWords h = Some (a', h') \<and> a' \<noteq> a \<and>
           (\<forall>b < fresh h. cells h' b = cells h b) \<and> cells h' a = Some ws \<and>
           cells h' a' = Some (sortedWords ws maxWords) \<and>
           length (sortedWords ws maxWords) = min (length ws) maxWords \<and>
           sorted_wrt (\<lambda>x y. wvalue y \<le> wvalue x) (sortedWords ws maxWords) \<and>
           sortedWords ws maxWords = take maxWords (array_sort by_value ws) \<and>
           mset (array_sort by_value ws) = mset ws \<and>
           (\<forall>v. filter (\<lambda>w. wvalue w = v) (array_sort by_value ws) = filter (\<lambda>w. wvalue w = v) ws) \<and>
           (ws = [] \<longrightarrow> sortedWords ws maxWords = [])"
proof -
  let ?h' = "h\<lparr>cells := (cells h)(fresh h \<mapsto> array_sort by_value ws,
                Suc (fresh h) \<mapsto> sortedWords ws maxWords), fresh := Suc (Suc (fresh h))\<rparr>"
  have 1: "sortedWords_heap a maxWords h = Some (Suc (fresh h), ?h')"
    by (rule sortedWords_heap_eq[OF assms])
  have 2: "Suc (fresh h) \<noteq> a" using assms(2) by simp
  have 3: "\<forall>b < fresh h. cells ?h' b = cells h b" by simp
  have 4: "cells ?h' a = Some ws" using assms by simp
  have 5: "cells ?h' (Suc (fresh h)) = Some (sortedWords ws maxWords)" by simp
  have 6: "ws = [] \<longrightarrow> sortedWords ws maxWords = []"
    by (simp add: sortedWords_def array_sort_def)
  have 7: "sortedWords ws maxWords = take maxWords (array_sort by_value ws)"
    by (simp add: sortedWords_def)
  from 1 2 3 4 5 6 7 sortedWords_length sortedWords_desc array_sort_mset array_sort_stable
  show ?thesis by blast
qed

theorem sortedWords_contract_witness:
  "cells example_heap 0 = Some tied_words \<and> 0 < fresh example_heap \<and>
   (\<exists>a' h'. sortedWords_heap 0 2 example_heap = Some (a', h') \<and> a' \<noteq> 0 \<and>
      cells h' 0 = Some tied_words \<and> cells h' a' = Some (sortedWords tied_words 2)) \<and>
   sortedWords tied_words 2 = [\<lparr>wtext = ''b'', wvalue = 10\<rparr>, \<lparr>wtext = ''a'', wvalue = 1\<rparr>]"
proof -
  have h1: "cells example_heap 0 = Some tied_words" by (simp add: example_heap_def)
  have h2: "0 < fresh example_heap" by (simp add: example_heap_def)
  have v: "sortedWords tied_words 2 = [\<lparr>wtext = ''b'', wvalue = 10\<rparr>, \<lparr>wtext = ''a'', wvalue = 1\<rparr>]"
    by code_simp
  from sortedWords_contract[OF h1 h2, of 2] h1 h2 v show ?thesis by blast
qed


section \<open>The retry loop\<close>

lemma draw_retry:
  assumes "formatWords D opts sws fs g = (fws, g1)"
    and "cloud D (spiral opts) sz (batchSize opts) fws g1 = (cs, g2)"
    and "length sws \<noteq> length cs \<and> k \<le> MAX_LAYOUT_ATTEMPTS"
  shows "draw D sel opts sz sws fs k g =
     Layout k fs fws # Done k cs #
       (if k = MAX_LAYOUT_ATTEMPTS
        then [Warn (warning_message (int (length sws) - int (length cs)) k)] else []) @
       Stop # draw D sel opts sz sws
            (max (fst fs * SHRINK_FACTOR) 1, max (snd fs * SHRINK_FACTOR) (max (fst fs * SHRINK_FACTOR) 1))
            (k + 1) g2"
  using assms by (subst draw.simps) (simp add: Let_def)

lemma draw_accept:
  assumes "formatWords D opts sws fs g = (fws, g1)"
    and "cloud D (spiral opts) sz (batchSize opts) fws g1 = (cs, g2)"
    and "\<not> (length sws \<noteq> length cs \<and> k \<le> MAX_LAYOUT_ATTEMPTS)"
  shows "draw D sel opts sz sws fs k g = [Layout k fs fws, Done k cs, Render sel cs]"
  using assms by (subst draw.simps) (auto simp add: Let_def)

lemma layouts_append: "layouts (xs @ ys) = layouts xs @ layouts ys"
  by (induction xs rule: layouts.induct) simp_all

lemma bounds_seq_simps:
  "bounds_seq [] = []"
  "bounds_seq (Layout k b ws # es) = b # bounds_seq es"
  "bounds_seq (Done k cs # es) = bounds_seq es"
  "bounds_seq (Warn m # es) = bounds_seq es"
  "bounds_seq (Stop # es) = bounds_seq es"
  "bounds_seq (Render s cs # es) = bounds_seq es"
  by (simp_all add: bounds_seq_def)

lemma bounds_seq_append: "bounds_seq (xs @ ys) = bounds_seq xs @ bounds_seq ys"
  by (simp add: bounds_seq_def layouts_append)

lemma draw_bounds_le:
  "1 \<le> fst fs \<Longrightarrow> fst fs \<le> snd fs \<Longrightarrow> b \<in> set (bounds_seq (draw D sel opts sz sws fs k g)) \<Longrightarrow>
     1 \<le> fst b \<and> fst b \<le> snd b \<and> fst b \<le> fst fs \<and> snd b \<le> snd fs"
proof (induction D sel opts sz sws fs k g rule: draw.induct)
  case (1 D sel opts sz sws fs k g)
  obtain fws g1 where f: "formatWords D opts sws fs g = (fws, g1)" by (cases "formatWords D opts sws fs g")
  obtain cs g2 where c: "cloud D (spiral opts) sz (batchSize opts) fws g1 = (cs, g2)"
    by (cases "cloud D (spiral opts) sz (batchSize opts) fws g1")
  let ?fs' = "(max (fst fs * SHRINK_FACTOR) 1, max (snd fs * SHRINK_FACTOR) (max (fst fs * SHRINK_FACTOR) 1))"
  show ?case
  proof (cases "length sws \<noteq> length cs \<and> k \<le> MAX_LAYOUT_ATTEMPTS")
    case True
    have s: "1 \<le> fst ?fs'" "fst ?fs' \<le> snd ?fs'" "fst ?fs' \<le> fst fs" "snd ?fs' \<le> snd fs"
      using "1.prems"(1,2) by (simp_all add: SHRINK_FACTOR_def)
    from "1.prems"(3) have "b = fs \<or> b \<in> set (bounds_seq (draw D sel opts sz sws ?fs' (k + 1) g2))"
      by (simp add: draw_retry[OF f c True] bounds_seq_simps bounds_seq_append split: if_splits)
    then show ?thesis
    proof
      assume "b = fs" then show ?thesis using "1.prems" by simp
    next
      assume "b \<in> set (bounds_seq (draw D sel opts sz sws ?fs' (k + 1) g2))"
      from "1.IH"[OF f[symmetric] refl c[symmetric] refl True refl refl s(1,2) this]
      have "1 \<le> fst b \<and> fst b \<le> snd b \<and> fst b \<le> fst ?fs' \<and> snd b \<le> snd ?fs'" .
      with s(3,4) show ?thesis by (meson order_trans)
    qed
  next
    case False
    then show ?thesis using "1.prems" by (simp add: draw_accept[OF f c] bounds_seq_simps)
  qed
qed

lemma draw_bounds_nonincreasing:
  "1 \<le> fst fs \<Longrightarrow> fst fs \<le> snd fs \<Longrightarrow>
     sorted_wrt (\<lambda>b b'. fst b' \<le> fst b \<and> snd b' \<le> snd b) (bounds_seq (draw D sel opts sz sws fs k g))"
proof (induction D sel opts sz sws fs k g rule: draw.induct)
  case (1 D sel opts sz sws fs k g)
  obtain fws g1 where f: "formatWords D opts sws fs g = (fws, g1)" by (cases "formatWords D opts sws fs g")
  obtain cs g2 where c: "cloud D (spiral opts) sz (batchSize opts) fws g1 = (cs, g2)"
    by (cases "cloud D (spiral opts) sz (batchSize opts) fws g1")
  let ?fs' = "(max (fst fs * SHRINK_FACTOR) 1, max (snd fs * SHRINK_FACTOR) (max (fst fs * SHRINK_FACTOR) 1))"
  show ?case
  proof (cases "length sws \<noteq> length cs \<and> k \<le> MAX_LAYOUT_ATTEMPTS")
    case True
    have s: "1 \<le> fst ?fs'" "fst ?fs' \<le> snd ?fs'" "fst ?fs' \<le> fst fs" "snd ?fs' \<le> snd fs"
      using "1.prems"(1,2) by (simp_all add: SHRINK_FACTOR_def)
    have e: "bounds_seq (draw D sel opts sz sws fs k g) = fs # bounds_seq (draw D sel opts sz sws ?fs' (k + 1) g2)"
      by (simp add: draw_retry[OF f c True] bounds_seq_simps bounds_seq_append)
    have r: "sorted_wrt (\<lambda>b b'. fst b' \<le> fst b \<and> snd b' \<le> snd b) (bounds_seq (draw D sel opts sz sws ?fs' (k + 1) g2))"
      by (rule "1.IH"[OF f[symmetric] refl c[symmetric] refl True refl refl s(1,2)])
    have "\<forall>b\<in>set (bounds_seq (draw D sel opts sz sws ?fs' (k + 1) g2)). fst b \<le> fst fs \<and> snd b \<le> snd fs"
    proof
      fix b assume "b \<in> set (bounds_seq (draw D sel opts sz sws ?fs' (k + 1) g2))"
      from draw_bounds_le[OF s(1,2) this] s(3,4) show "fst b \<le> fst fs \<and> snd b \<le> snd fs"
        by (meson order_trans)
    qed
    with r show ?thesis unfolding e by simp
  next
    case False
    then show ?thesis by (simp add: draw_accept[OF f c] bounds_seq_simps)
  qed
qed

lemma draw_layouts_count:
  "length (layouts (draw D sel opts sz sws fs k g)) \<le> Suc (Suc MAX_LAYOUT_ATTEMPTS - k)"
proof (induction D sel opts sz sws fs k g rule: draw.induct)
  case (1 D sel opts sz sws fs k g)
  obtain fws g1 where f: "formatWords D opts sws fs g = (fws, g1)" by (cases "formatWords D opts sws fs g")
  obtain cs g2 where c: "cloud D (spiral opts) sz (batchSize opts) fws g1 = (cs, g2)"
    by (cases "cloud D (spiral opts) sz (batchSize opts) fws g1")
  show ?case
  proof (cases "length sws \<noteq> length cs \<and> k \<le> MAX_LAYOUT_ATTEMPTS")
    case True
    let ?fs' = "(max (fst fs * SHRINK_FACTOR) 1, max (snd fs * SHRINK_FACTOR) (max (fst fs * SHRINK_FACTOR) 1))"
    have "length (layouts (draw D sel opts sz sws ?fs' (k + 1) g2)) \<le> Suc (Suc MAX_LAYOUT_ATTEMPTS - (k + 1))"
      by (rule "1.IH"[OF f[symmetric] refl c[symmetric] refl True refl refl])
    moreover have "length (layouts (draw D sel opts sz sws fs k g)) =
        Suc (length (layouts (draw D sel opts sz sws ?fs' (k + 1) g2)))"
      by (simp add: draw_retry[OF f c True] layouts_append)
    ultimately show ?thesis using True by linarith
  next
    case False
    then show ?thesis by (simp add: draw_accept[OF f c])
  qed
qed

lemma draw_retries_count:
  "length (filter (\<lambda>e. e = Stop) (draw D sel opts sz sws fs k g)) \<le> Suc MAX_LAYOUT_ATTEMPTS - k"
proof (induction D sel opts sz sws fs k g rule: draw.induct)
  case (1 D sel opts sz sws fs k g)
  obtain fws g1 where f: "formatWords D opts sws fs g = (fws, g1)" by (cases "formatWords D opts sws fs g")
  obtain cs g2 where c: "cloud D (spiral opts) sz (batchSize opts) fws g1 = (cs, g2)"
    by (cases "cloud D (spiral opts) sz (batchSize opts) fws g1")
  show ?case
  proof (cases "length sws \<noteq> length cs \<and> k \<le> MAX_LAYOUT_ATTEMPTS")
    case True
    let ?fs' = "(max (fst fs * SHRINK_FACTOR) 1, max (snd fs * SHRINK_FACTOR) (max (fst fs * SHRINK_FACTOR) 1))"
    have "length (filter (\<lambda>e. e = Stop) (draw D sel opts sz sws ?fs' (k + 1) g2))
        \<le> Suc MAX_LAYOUT_ATTEMPTS - (k + 1)"
      by (rule "1.IH"[OF f[symmetric] refl c[symmetric] refl True refl refl])
    moreover have "length (filter (\<lambda>e. e = Stop) (draw D sel opts sz sws fs k g)) =
        Suc (length (filter (\<lambda>e. e = Stop) (draw D sel opts sz sws ?fs' (k + 1) g2)))"
      by (simp add: draw_retry[OF f c True])
    ultimately show ?thesis using True by linarith
  next
    case False
    then show ?thesis by (simp add: draw_accept[OF f c])
  qed
qed

lemma renders_append: "renders (xs @ ys) = renders xs @ renders ys"
  by (induction xs rule: renders.induct) simp_all

lemma warnings_append: "warnings (xs @ ys) = warnings xs @ warnings ys"
  by (induction xs rule: warnings.induct) simp_all

lemma dones_append: "dones (xs @ ys) = dones xs @ dones ys"
  by (induction xs rule: dones.induct) simp_all

lemma draw_renders_once: "length (renders (draw D sel opts sz sws fs k g)) = 1"
proof (induction D sel opts sz sws fs k g rule: draw.induct)
  case (1 D sel opts sz sws fs k g)
  obtain fws g1 where f: "formatWords D opts sws fs g = (fws, g1)" by (cases "formatWords D opts sws fs g")
  obtain cs g2 where c: "cloud D (spiral opts) sz (batchSize opts) fws g1 = (cs, g2)"
    by (cases "cloud D (spiral opts) sz (batchSize opts) fws g1")
  show ?case
  proof (cases "length sws \<noteq> length cs \<and> k \<le> MAX_LAYOUT_ATTEMPTS")
    case True
    from "1.IH"[OF f[symmetric] refl c[symmetric] refl True refl refl]
    show ?thesis by (simp add: draw_retry[OF f c True] renders_append)
  next
    case False
    then show ?thesis by (simp add: draw_accept[OF f c])
  qed
qed

lemma draw_accepted_iff:
  assumes f: "formatWords D opts sws fs g = (fws, g1)"
    and c: "cloud D (spiral opts) sz (batchSize opts) fws g1 = (cs, g2)"
  shows "(draw D sel opts sz sws fs k g = [Layout k fs fws, Done k cs, Render sel cs]) =
         (length cs = length sws \<or> MAX_LAYOUT_ATTEMPTS < k)"
proof (cases "length sws \<noteq> length cs \<and> k \<le> MAX_LAYOUT_ATTEMPTS")
  case True
  then show ?thesis by (auto simp: draw_retry[OF f c True])
next
  case False
  then show ?thesis by (auto simp: draw_accept[OF f c False])
qed



lemma draw_warning_exhausted:
  "warnings (draw D sel opts sz sws fs k g) \<noteq> [] \<Longrightarrow>
   \<exists>cs. (MAX_LAYOUT_ATTEMPTS, cs) \<in> set (dones (draw D sel opts sz sws fs k g)) \<and> length cs \<noteq> length sws"
proof (induction D sel opts sz sws fs k g rule: draw.induct)
  case (1 D sel opts sz sws fs k g)
  obtain fws g1 where f: "formatWords D opts sws fs g = (fws, g1)" by (cases "formatWords D opts sws fs g")
  obtain c0 g2 where c: "cloud D (spiral opts) sz (batchSize opts) fws g1 = (c0, g2)"
    by (cases "cloud D (spiral opts) sz (batchSize opts) fws g1")
  let ?fs' = "(max (fst fs * SHRINK_FACTOR) 1, max (snd fs * SHRINK_FACTOR) (max (fst fs * SHRINK_FACTOR) 1))"
  let ?d' = "draw D sel opts sz sws ?fs' (k + 1) g2"
  show ?case
  proof (cases "length sws \<noteq> length c0 \<and> k \<le> MAX_LAYOUT_ATTEMPTS")
    case False
    with "1.prems" show ?thesis by (simp add: draw_accept[OF f c False])
  next
    case True
    note e = draw_retry[OF f c True]
    show ?thesis
    proof (cases "k = MAX_LAYOUT_ATTEMPTS")
      case k: True
      with True show ?thesis unfolding e by auto
    next
      case k: False
      with "1.prems" have "warnings ?d' \<noteq> []" by (simp add: e)
      from "1.IH"[OF f[symmetric] refl c[symmetric] refl True refl refl this]
      show ?thesis by (auto simp: e)
    qed
  qed
qed

text \<open>
  Claim C1, amended.  A call of \<open>draw\<close> hands the words the engine placed to the renderer
  without another attempt exactly when all sorted words were placed or the attempt
  number exceeds \<open>MAX_LAYOUT_ATTEMPTS = 10\<close>.  So attempts 1 to 10 can be rejected and the
  eleventh is accepted whatever it placed: a run retries at most 10 times, starts at most
  11 layouts and calls the renderer once.
\<close>

theorem draw_accepts_and_attempts:
  "(case formatWords D opts sws fs g of (fws, g1) \<Rightarrow>
      case cloud D (spiral opts) sz (batchSize opts) fws g1 of (cs, g2) \<Rightarrow>
        (draw D sel opts sz sws fs k g = [Layout k fs fws, Done k cs, Render sel cs]) =
        (length cs = length sws \<or> MAX_LAYOUT_ATTEMPTS < k)) \<and>
   MAX_LAYOUT_ATTEMPTS = 10 \<and>
   length (filter (\<lambda>e. e = Stop) (draw D sel opts sz sws sizes 1 g')) \<le> 10 \<and>
   length (layouts (draw D sel opts sz sws sizes 1 g')) \<le> 11 \<and>
   length (renders (draw D sel opts sz sws sizes 1 g')) = 1"
proof -
  have "length (layouts (draw D sel opts sz sws sizes 1 g')) \<le> 11"
    using draw_layouts_count[of D sel opts sz sws sizes 1 g'] by (simp add: MAX_LAYOUT_ATTEMPTS_def)
  moreover have "length (filter (\<lambda>e. e = Stop) (draw D sel opts sz sws sizes 1 g')) \<le> 10"
    using draw_retries_count[of D sel opts sz sws sizes 1 g'] by (simp add: MAX_LAYOUT_ATTEMPTS_def)
  ultimately show ?thesis
    by (auto simp: draw_accepted_iff draw_renders_once MAX_LAYOUT_ATTEMPTS_def split: prod.splits)
qed

text \<open>
  With an engine that never places a word the run starts 11 layouts before it accepts,
  not at most 10.
\<close>

theorem draw_eleven_layouts:
  "\<not> length (layouts (draw (example_deps 0) () (defaultOptions (example_deps 0)) (300, 300)
        example_words (4, 32) 1 0)) \<le> 10"
  by code_simp

text \<open>
  Claim C4, amended.  From a starting pair with \<open>1 \<le> fontSizes[0] \<le> fontSizes[1]\<close> the
  bounds of the successive attempts never grow, in either component, and stay at or above
  \<open>1\<close>.  From any starting pair, this holds from the second attempt on.
\<close>

theorem bounds_nonincreasing_from_one:
  "(1 \<le> fst sizes \<and> fst sizes \<le> snd sizes \<longrightarrow>
      sorted_wrt (\<lambda>b b'. fst b' \<le> fst b \<and> snd b' \<le> snd b)
        (bounds_seq (draw D sel opts sz sws sizes k g)) \<and>
      (\<forall>b \<in> set (bounds_seq (draw D sel opts sz sws sizes k g)). 1 \<le> fst b \<and> fst b \<le> snd b)) \<and>
   sorted_wrt (\<lambda>b b'. fst b' \<le> fst b \<and> snd b' \<le> snd b)
     (tl (bounds_seq (draw D sel opts sz sws sizes k g))) \<and>
   (\<forall>b \<in> set (tl (bounds_seq (draw D sel opts sz sws sizes k g))). 1 \<le> fst b \<and> fst b \<le> snd b)"
proof -
  let ?R = "\<lambda>b b'. fst b' \<le> fst b \<and> snd b' \<le> (snd b :: real)"
  have A: "1 \<le> fst fs \<Longrightarrow> fst fs \<le> snd fs \<Longrightarrow>
      sorted_wrt ?R (bounds_seq (draw D sel opts sz sws fs j h)) \<and>
      (\<forall>b \<in> set (bounds_seq (draw D sel opts sz sws fs j h)). 1 \<le> fst b \<and> fst b \<le> snd b)"
    for fs j h
    using draw_bounds_nonincreasing[of fs D sel opts sz sws j h] draw_bounds_le[of fs _ D sel opts sz sws j h]
    by blast
  obtain fws g1 where f: "formatWords D opts sws sizes g = (fws, g1)"
    by (cases "formatWords D opts sws sizes g")
  obtain cs g2 where c: "cloud D (spiral opts) sz (batchSize opts) fws g1 = (cs, g2)"
    by (cases "cloud D (spiral opts) sz (batchSize opts) fws g1")
  let ?fs' = "(max (fst sizes * SHRINK_FACTOR) 1,
               max (snd sizes * SHRINK_FACTOR) (max (fst sizes * SHRINK_FACTOR) 1))"
  have B: "sorted_wrt ?R (tl (bounds_seq (draw D sel opts sz sws sizes k g))) \<and>
     (\<forall>b \<in> set (tl (bounds_seq (draw D sel opts sz sws sizes k g))). 1 \<le> fst b \<and> fst b \<le> snd b)"
  proof (cases "length sws \<noteq> length cs \<and> k \<le> MAX_LAYOUT_ATTEMPTS")
    case True
    have e: "tl (bounds_seq (draw D sel opts sz sws sizes k g)) =
        bounds_seq (draw D sel opts sz sws ?fs' (k + 1) g2)"
      by (simp add: draw_retry[OF f c True] bounds_seq_simps bounds_seq_append)
    have "1 \<le> fst ?fs'" "fst ?fs' \<le> snd ?fs'" by simp_all
    from A[OF this] show ?thesis unfolding e .
  next
    case False
    then show ?thesis by (simp add: draw_accept[OF f c] bounds_seq_simps)
  qed
  from A[of sizes k g] B show ?thesis by blast
qed

theorem bounds_nonincreasing_from_one_witness:
  "1 \<le> fst ((4, 32) :: real \<times> real) \<and> fst ((4, 32) :: real \<times> real) \<le> snd ((4, 32) :: real \<times> real) \<and>
   sorted_wrt (\<lambda>b b'. fst b' \<le> fst b \<and> snd b' \<le> snd b)
     (bounds_seq (draw (example_deps 30) () (defaultOptions (example_deps 30)) (300, 300)
        example_words (4, 32) 1 0)) \<and>
   bounds_seq (draw (example_deps 30) () (defaultOptions (example_deps 30)) (300, 300)
        example_words (4, 32) 1 0) = [(4, 32), (19 / 5, 152 / 5), (361 / 100, 722 / 25)]"
proof -
  have h: "1 \<le> fst ((4, 32) :: real \<times> real) \<and> fst ((4, 32) :: real \<times> real) \<le> snd ((4, 32) :: real \<times> real)" by simp
  have v: "bounds_seq (draw (example_deps 30) () (defaultOptions (example_deps 30)) (300, 300)
        example_words (4, 32) 1 0) = [(4, 32), (19 / 5, 152 / 5), (361 / 100, 722 / 25)]"
    by code_simp
  from bounds_nonincreasing_from_one[of "(4, 32)" "example_deps 30" "()"
      "defaultOptions (example_deps 30)" "(300, 300)" example_words 1 0] h v
  show ?thesis by blast
qed

text \<open>
  A starting pair with both components positive and in order, but below \<open>1\<close>: the first
  retry raises both components to \<open>1\<close>.
\<close>

theorem bounds_rise_below_one:
  "(0::real) < 1 / 2 \<and> (1 / 2 :: real) \<le> 4 / 5 \<and>
   take 2 (bounds_seq (draw (example_deps 0) () (defaultOptions (example_deps 0)) (300, 300)
      example_words (1 / 2, 4 / 5) 1 0)) = [(1 / 2, 4 / 5), (1, 1)]"
  by code_simp

lemma draw_bounds_successively:
  "successively
     (\<lambda>b b'. fst b' = max (fst b * (95 / 100)) 1 \<and> snd b' = max (snd b * (95 / 100)) (fst b'))
     (bounds_seq (draw D sel opts sz sws fs k g))"
proof (induction D sel opts sz sws fs k g rule: draw.induct)
  case (1 D sel opts sz sws fs k g)
  obtain fws g1 where f: "formatWords D opts sws fs g = (fws, g1)" by (cases "formatWords D opts sws fs g")
  obtain cs g2 where c: "cloud D (spiral opts) sz (batchSize opts) fws g1 = (cs, g2)"
    by (cases "cloud D (spiral opts) sz (batchSize opts) fws g1")
  let ?fs' = "(max (fst fs * SHRINK_FACTOR) 1, max (snd fs * SHRINK_FACTOR) (max (fst fs * SHRINK_FACTOR) 1))"
  show ?case
  proof (cases "length sws \<noteq> length cs \<and> k \<le> MAX_LAYOUT_ATTEMPTS")
    case True
    have e: "bounds_seq (draw D sel opts sz sws fs k g) = fs # bounds_seq (draw D sel opts sz sws ?fs' (k + 1) g2)"
      by (simp add: draw_retry[OF f c True] bounds_seq_simps bounds_seq_append)
    obtain fws' g1' where f': "formatWords D opts sws ?fs' g2 = (fws', g1')" by (cases "formatWords D opts sws ?fs' g2")
    obtain cs' g2' where c': "cloud D (spiral opts) sz (batchSize opts) fws' g1' = (cs', g2')"
      by (cases "cloud D (spiral opts) sz (batchSize opts) fws' g1'")
    have h: "\<exists>rest. bounds_seq (draw D sel opts sz sws ?fs' (k + 1) g2) = ?fs' # rest"
      by (cases "length sws \<noteq> length cs' \<and> k + 1 \<le> MAX_LAYOUT_ATTEMPTS")
        (simp_all add: draw_retry[OF f' c'] draw_accept[OF f' c'] bounds_seq_simps bounds_seq_append)
    have r: "successively (\<lambda>b b'. fst b' = max (fst b * (95 / 100)) 1 \<and> snd b' = max (snd b * (95 / 100)) (fst b'))
       (bounds_seq (draw D sel opts sz sws ?fs' (k + 1) g2))"
      by (rule "1.IH"[OF f[symmetric] refl c[symmetric] refl True refl refl])
    from h r show ?thesis unfolding e by (auto simp: SHRINK_FACTOR_def)
  next
    case False
    then show ?thesis by (simp add: draw_accept[OF f c] bounds_seq_simps)
  qed
qed

lemma draw_bounds_hd: "\<exists>rest. bounds_seq (draw D sel opts sz sws fs k g) = fs # rest"
proof -
  obtain fws g1 where f: "formatWords D opts sws fs g = (fws, g1)" by (cases "formatWords D opts sws fs g")
  obtain cs g2 where c: "cloud D (spiral opts) sz (batchSize opts) fws g1 = (cs, g2)"
    by (cases "cloud D (spiral opts) sz (batchSize opts) fws g1")
  show ?thesis
    by (cases "length sws \<noteq> length cs \<and> k \<le> MAX_LAYOUT_ATTEMPTS")
      (simp_all add: draw_retry[OF f c] draw_accept[OF f c] bounds_seq_simps bounds_seq_append)
qed

text \<open>
  Claim C5.  When the engine of an attempt with bounds \<open>[min, max]\<close> leaves words unplaced
  and the attempt number is at most \<open>10\<close>, the run stops the layout and calls \<open>draw\<close>
  for the next attempt with exactly \<open>newMin = max (min * 0.95) 1\<close> and
  \<open>newMax = max (max * 0.95) newMin\<close>: these are the bounds that follow
  \<open>[min, max]\<close> in the run.  Throughout a run, successive bounds are related in this way.
\<close>

theorem shrink_exact:
  assumes "formatWords D opts sws fs g = (fws, g1)"
    and "cloud D (spiral opts) sz (batchSize opts) fws g1 = (cs, g2)"
    and "length sws \<noteq> length cs"
    and "k \<le> MAX_LAYOUT_ATTEMPTS"
  shows "draw D sel opts sz sws fs k g =
           Layout k fs fws # Done k cs #
             (if k = MAX_LAYOUT_ATTEMPTS
              then [Warn (warning_message (int (length sws) - int (length cs)) k)] else []) @
             Stop #
             draw D sel opts sz sws
               (max (fst fs * (95 / 100)) 1, max (snd fs * (95 / 100)) (max (fst fs * (95 / 100)) 1))
               (k + 1) g2 \<and>
         (\<exists>rest. bounds_seq (draw D sel opts sz sws fs k g) =
            fs # (max (fst fs * (95 / 100)) 1, max (snd fs * (95 / 100)) (max (fst fs * (95 / 100)) 1)) # rest) \<and>
         successively
           (\<lambda>b b'. fst b' = max (fst b * (95 / 100)) 1 \<and> snd b' = max (snd b * (95 / 100)) (fst b'))
           (bounds_seq (draw D sel opts sz sws fs k g))"
proof -
  let ?fs' = "(max (fst fs * (95 / 100)) 1, max (snd fs * (95 / 100)) (max (fst fs * (95 / 100)) 1))"
  let ?s = "(max (fst fs * SHRINK_FACTOR) 1, max (snd fs * SHRINK_FACTOR) (max (fst fs * SHRINK_FACTOR) 1))"
  have q: "?s = ?fs'" unfolding SHRINK_FACTOR_def ..
  from assms(3,4) have T: "length sws \<noteq> length cs \<and> k \<le> MAX_LAYOUT_ATTEMPTS" by simp
  note e = draw_retry[OF assms(1,2) T, of sel, unfolded q]
  from draw_bounds_hd[of D sel opts sz sws ?fs' "k + 1" g2]
  obtain rest where r: "bounds_seq (draw D sel opts sz sws ?fs' (k + 1) g2) = ?fs' # rest" ..
  have "bounds_seq (draw D sel opts sz sws fs k g) =
      fs # bounds_seq (draw D sel opts sz sws ?s (k + 1) g2)"
    by (simp add: draw_retry[OF assms(1,2) T] bounds_seq_simps bounds_seq_append)
  then have b: "bounds_seq (draw D sel opts sz sws fs k g) = fs # ?fs' # rest"
    unfolding q r .
  from e b draw_bounds_successively[of D sel opts sz sws fs k g] show ?thesis by blast
qed

theorem shrink_exact_witness:
  "formatWords (example_deps 30) (defaultOptions (example_deps 30)) example_words (4, 32) 0 =
     ([\<lparr>wtext = ''a'', wvalue = 10, wpadding = 1, wrotate = - 90, wsize = 32,
         font = ''times new roman'', style = ''normal'', weight = ''normal''\<rparr>,
       \<lparr>wtext = ''b'', wvalue = 1, wpadding = 1, wrotate = - 60, wsize = 32,
         font = ''times new roman'', style = ''normal'', weight = ''normal''\<rparr>], 2) \<and>
   cloud (example_deps 30) (spiral (defaultOptions (example_deps 30))) (300, 300)
       (batchSize (defaultOptions (example_deps 30)))
       [\<lparr>wtext = ''a'', wvalue = 10, wpadding = 1, wrotate = - 90, wsize = 32,
         font = ''times new roman'', style = ''normal'', weight = ''normal''\<rparr>,
        \<lparr>wtext = ''b'', wvalue = 1, wpadding = 1, wrotate = - 60, wsize = 32,
         font = ''times new roman'', style = ''normal'', weight = ''normal''\<rparr>] 2 = ([], 2) \<and>
   length example_words \<noteq> length ([] :: pword list) \<and> 1 \<le> MAX_LAYOUT_ATTEMPTS \<and>
   (\<exists>rest. bounds_seq (draw (example_deps 30) () (defaultOptions (example_deps 30)) (300, 300)
        example_words (4, 32) 1 0) =
      (4, 32) # (max (fst ((4, 32) :: real \<times> real) * (95 / 100)) 1,
                 max (snd ((4, 32) :: real \<times> real) * (95 / 100))
                   (max (fst ((4, 32) :: real \<times> real) * (95 / 100)) 1)) # rest) \<and>
   take 2 (bounds_seq (draw (example_deps 30) () (defaultOptions (example_deps 30)) (300, 300)
        example_words (4, 32) 1 0)) = [(4, 32), (38 / 10, 304 / 10)]"
proof -
  let ?fws = "[\<lparr>wtext = ''a'', wvalue = 10, wpadding = 1, wrotate = - 90, wsize = 32,
         font = ''times new roman'', style = ''normal'', weight = ''normal''\<rparr>,
       \<lparr>wtext = ''b'', wvalue = 1, wpadding = 1, wrotate = - 60, wsize = 32,
         font = ''times new roman'', style = ''normal'', weight = ''normal''\<rparr>]"
  have h1: "formatWords (example_deps 30) (defaultOptions (example_deps 30)) example_words (4, 32) 0 = (?fws, 2)"
    by code_simp
  have h2: "cloud (example_deps 30) (spiral (defaultOptions (example_deps 30))) (300, 300)
       (batchSize (defaultOptions (example_deps 30))) ?fws 2 = ([], 2)"
    by code_simp
  have h3: "length example_words \<noteq> length ([] :: pword list)" by (simp add: example_words_def)
  have h4: "1 \<le> MAX_LAYOUT_ATTEMPTS" by (simp add: MAX_LAYOUT_ATTEMPTS_def)
  from shrink_exact[OF h1 h2 h3 h4, of "()"]
  have r: "\<exists>rest. bounds_seq (draw (example_deps 30) () (defaultOptions (example_deps 30)) (300, 300)
        example_words (4, 32) 1 0) =
      (4, 32) # (max (fst ((4, 32) :: real \<times> real) * (95 / 100)) 1,
                 max (snd ((4, 32) :: real \<times> real) * (95 / 100))
                   (max (fst ((4, 32) :: real \<times> real) * (95 / 100)) 1)) # rest"
    by blast
  have v: "take 2 (bounds_seq (draw (example_deps 30) () (defaultOptions (example_deps 30)) (300, 300)
        example_words (4, 32) 1 0)) = [(4, 32), (38 / 10, 304 / 10)]"
    by code_simp
  show ?thesis by (intro conjI) (rule h1 h2 h3 h4 r v)+
qed

text \<open>The bounds of the three attempts of a run that starts from \<open>[4, 32]\<close>.\<close>

lemma shrink_example:
  "bounds_seq (draw (example_deps 30) () (defaultOptions (example_deps 30)) (300, 300)
        example_words (4, 32) 1 0) = [(4, 32), (38 / 10, 304 / 10), (361 / 100, 2888 / 100)]"
  by code_simp







section \<open>Formatting across attempts\<close>

lemma formatWords_map_frame:
  "map wtext (fst (formatWords_map D opts sc ws g)) = map wtext ws \<and>
   map wvalue (fst (formatWords_map D opts sc ws g)) = map wvalue ws \<and>
   map wsize (fst (formatWords_map D opts sc ws g)) = map (\<lambda>d. sc (wvalue d)) ws \<and>
   (\<forall>w \<in> set (fst (formatWords_map D opts sc ws g)).
      wpadding w = padding opts \<and> font w = fontFamily opts \<and> style w = fontStyle opts \<and>
      weight w = fontWeight opts)"
proof (induction ws arbitrary: g)
  case Nil
  show ?case by simp
next
  case (Cons d ds)
  obtain r g1 where r: "rotateWord D opts g = (r, g1)" by (cases "rotateWord D opts g")
  obtain fws g2 where m: "formatWords_map D opts sc ds g1 = (fws, g2)"
    by (cases "formatWords_map D opts sc ds g1")
  from Cons[of g1] show ?case by (simp add: r m)
qed

lemma draw_layouts_formatted:
  "(k', b, fws) \<in> set (layouts (draw D sel opts sz sws fs k g)) \<Longrightarrow>
     \<exists>g'. fws = fst (formatWords D opts sws b g')"
proof (induction D sel opts sz sws fs k g rule: draw.induct)
  case (1 D sel opts sz sws fs k g)
  obtain fws0 g1 where f: "formatWords D opts sws fs g = (fws0, g1)" by (cases "formatWords D opts sws fs g")
  obtain c0 g2 where c: "cloud D (spiral opts) sz (batchSize opts) fws0 g1 = (c0, g2)"
    by (cases "cloud D (spiral opts) sz (batchSize opts) fws0 g1")
  let ?fs' = "(max (fst fs * SHRINK_FACTOR) 1, max (snd fs * SHRINK_FACTOR) (max (fst fs * SHRINK_FACTOR) 1))"
  let ?d' = "draw D sel opts sz sws ?fs' (k + 1) g2"
  have here: "fws0 = fst (formatWords D opts sws fs g)" by (simp add: f)
  show ?case
  proof (cases "length sws \<noteq> length c0 \<and> k \<le> MAX_LAYOUT_ATTEMPTS")
    case False
    with "1.prems" here show ?thesis by (auto simp: draw_accept[OF f c False])
  next
    case True
    from "1.prems" have "(k', b, fws) = (k, fs, fws0) \<or> (k', b, fws) \<in> set (layouts ?d')"
      by (simp add: draw_retry[OF f c True] layouts_append split: if_splits)
    then show ?thesis
    proof
      assume "(k', b, fws) = (k, fs, fws0)" with here show ?thesis by auto
    next
      assume "(k', b, fws) \<in> set (layouts ?d')"
      from "1.IH"[OF f[symmetric] refl c[symmetric] refl True refl refl this] show ?thesis .
    qed
  qed
qed

lemma formatWords_map_rotateWords:
  "map wrotate (fst (formatWords_map D opts sc ws g)) = fst (rotateWords D opts (length ws) g) \<and>
   snd (formatWords_map D opts sc ws g) = snd (rotateWords D opts (length ws) g)"
proof (induction ws arbitrary: g)
  case Nil
  show ?case by simp
next
  case (Cons d ds)
  obtain r g1 where r: "rotateWord D opts g = (r, g1)" by (cases "rotateWord D opts g")
  obtain a g2 where m: "formatWords_map D opts sc ds g1 = (a, g2)"
    by (cases "formatWords_map D opts sc ds g1")
  obtain rs g2' where m': "rotateWords D opts (length ds) g1 = (rs, g2')"
    by (cases "rotateWords D opts (length ds) g1")
  from Cons[of g1] show ?case by (simp add: r m m')
qed

lemma formatWords_rotateWords:
  "map wrotate (fst (formatWords D opts ws fs g)) = fst (rotateWords D opts (length ws) g) \<and>
   snd (formatWords D opts ws fs g) = snd (rotateWords D opts (length ws) g)"
  unfolding formatWords_def by (rule formatWords_map_rotateWords)

lemma attempt_gens_retry:
  assumes "formatWords D opts sws fs g = (fws, g1)"
    and "cloud D (spiral opts) sz (batchSize opts) fws g1 = (cs, g2)"
    and "length sws \<noteq> length cs \<and> k \<le> MAX_LAYOUT_ATTEMPTS"
  shows "attempt_gens D opts sz sws fs k g =
     g # attempt_gens D opts sz sws
            (max (fst fs * SHRINK_FACTOR) 1, max (snd fs * SHRINK_FACTOR) (max (fst fs * SHRINK_FACTOR) 1))
            (k + 1) g2"
  using assms by (subst attempt_gens.simps) (simp add: Let_def)

lemma attempt_gens_accept:
  assumes "formatWords D opts sws fs g = (fws, g1)"
    and "cloud D (spiral opts) sz (batchSize opts) fws g1 = (cs, g2)"
    and "\<not> (length sws \<noteq> length cs \<and> k \<le> MAX_LAYOUT_ATTEMPTS)"
  shows "attempt_gens D opts sz sws fs k g = [g]"
  using assms by (subst attempt_gens.simps) (auto simp add: Let_def)

lemma draw_layouts_unfold:
  assumes f: "formatWords D opts sws fs g = (fws, g1)"
    and c: "cloud D (spiral opts) sz (batchSize opts) fws g1 = (cs, g2)"
  shows "layouts (draw D sel opts sz sws fs k g) =
     (k, fs, fws) #
       (if length sws \<noteq> length cs \<and> k \<le> MAX_LAYOUT_ATTEMPTS
        then layouts (draw D sel opts sz sws
            (max (fst fs * SHRINK_FACTOR) 1, max (snd fs * SHRINK_FACTOR) (max (fst fs * SHRINK_FACTOR) 1))
            (k + 1) g2)
        else [])"
proof (cases "length sws \<noteq> length cs \<and> k \<le> MAX_LAYOUT_ATTEMPTS")
  case True
  then show ?thesis by (simp add: draw_retry[OF f c True] layouts_append)
next
  case False
  then show ?thesis by (auto simp: draw_accept[OF f c False])
qed

lemma draw_rotations_gens:
  "map (\<lambda>(k, b, fws). map wrotate fws) (layouts (draw D sel opts sz sws fs k g)) =
   map (\<lambda>g'. fst (rotateWords D opts (length sws) g')) (attempt_gens D opts sz sws fs k g)"
proof (induction D sel opts sz sws fs k g rule: draw.induct)
  case (1 D sel opts sz sws fs k g)
  obtain fws g1 where f: "formatWords D opts sws fs g = (fws, g1)" by (cases "formatWords D opts sws fs g")
  obtain cs g2 where c: "cloud D (spiral opts) sz (batchSize opts) fws g1 = (cs, g2)"
    by (cases "cloud D (spiral opts) sz (batchSize opts) fws g1")
  from formatWords_rotateWords[of D opts sws fs g] f
  have r: "map wrotate fws = fst (rotateWords D opts (length sws) g)" by simp
  show ?case
  proof (cases "length sws \<noteq> length cs \<and> k \<le> MAX_LAYOUT_ATTEMPTS")
    case True
    from "1.IH"[OF f[symmetric] refl c[symmetric] refl True refl refl] r
    show ?thesis
      by (simp add: draw_retry[OF f c True] layouts_append attempt_gens_retry[OF f c True])
  next
    case False
    with r show ?thesis
      by (simp add: draw_accept[OF f c False] attempt_gens_accept[OF f c False])
  qed
qed

text \<open>
  Claim C2, amended.  In every attempt of a run the formatted words are the sorted words,
  in order, with the same text, value, padding, font family, style and weight; the sizes
  come from the font scale for the bounds of the attempt.  Every attempt calls the
  rotation function again for every word: its angles are the ones that as many calls of
  \<open>rotateWord()\<close> give from the state in which the attempt finds the generator, whatever
  the bounds.  The first attempt finds the state the run starts with, every later attempt
  the state that the engine of the attempt before left.
\<close>

theorem reformat_frame:
  "(case formatWords D opts sws fs g of (fws, g1) \<Rightarrow>
      case cloud D (spiral opts) sz (batchSize opts) fws g1 of (cs, g2) \<Rightarrow>
        layouts (draw D sel opts sz sws fs k g) =
          (k, fs, fws) #
            (if length sws \<noteq> length cs \<and> k \<le> MAX_LAYOUT_ATTEMPTS
             then layouts (draw D sel opts sz sws
                 (max (fst fs * SHRINK_FACTOR) 1,
                  max (snd fs * SHRINK_FACTOR) (max (fst fs * SHRINK_FACTOR) 1)) (k + 1) g2)
             else []) \<and>
        attempt_gens D opts sz sws fs k g =
          g #
            (if length sws \<noteq> length cs \<and> k \<le> MAX_LAYOUT_ATTEMPTS
             then attempt_gens D opts sz sws
                 (max (fst fs * SHRINK_FACTOR) 1,
                  max (snd fs * SHRINK_FACTOR) (max (fst fs * SHRINK_FACTOR) 1)) (k + 1) g2
             else []) \<and>
        map wrotate fws = fst (rotateWords D opts (length sws) g) \<and>
        g1 = snd (rotateWords D opts (length sws) g)) \<and>
   map (\<lambda>(k, b, fws). map wrotate fws) (layouts (draw D sel opts sz sws sizes 1 g0)) =
     map (\<lambda>g'. fst (rotateWords D opts (length sws) g')) (attempt_gens D opts sz sws sizes 1 g0) \<and>
   (\<forall>(k, b, fws) \<in> set (layouts (draw D sel opts sz sws sizes 1 g0)).
      map wtext fws = map wtext sws \<and> map wvalue fws = map wvalue sws \<and>
      (\<forall>w \<in> set fws. wpadding w = padding opts \<and> font w = fontFamily opts \<and>
         style w = fontStyle opts \<and> weight w = fontWeight opts) \<and>
      map wsize fws = map (\<lambda>d. getFontScale D sws b (scale opts) (wvalue d)) sws)"
proof -
  obtain fws g1 where f: "formatWords D opts sws fs g = (fws, g1)" by (cases "formatWords D opts sws fs g")
  obtain cs g2 where c: "cloud D (spiral opts) sz (batchSize opts) fws g1 = (cs, g2)"
    by (cases "cloud D (spiral opts) sz (batchSize opts) fws g1")
  from formatWords_rotateWords[of D opts sws fs g] f
  have r: "map wrotate fws = fst (rotateWords D opts (length sws) g)"
    "g1 = snd (rotateWords D opts (length sws) g)" by simp_all
  have a: "attempt_gens D opts sz sws fs k g =
          g #
            (if length sws \<noteq> length cs \<and> k \<le> MAX_LAYOUT_ATTEMPTS
             then attempt_gens D opts sz sws
                 (max (fst fs * SHRINK_FACTOR) 1,
                  max (snd fs * SHRINK_FACTOR) (max (fst fs * SHRINK_FACTOR) 1)) (k + 1) g2
             else [])"
    by (cases "length sws \<noteq> length cs \<and> k \<le> MAX_LAYOUT_ATTEMPTS")
      (auto simp: attempt_gens_retry[OF f c] attempt_gens_accept[OF f c])
  have step: "case formatWords D opts sws fs g of (fws, g1) \<Rightarrow>
      case cloud D (spiral opts) sz (batchSize opts) fws g1 of (cs, g2) \<Rightarrow>
        layouts (draw D sel opts sz sws fs k g) =
          (k, fs, fws) #
            (if length sws \<noteq> length cs \<and> k \<le> MAX_LAYOUT_ATTEMPTS
             then layouts (draw D sel opts sz sws
                 (max (fst fs * SHRINK_FACTOR) 1,
                  max (snd fs * SHRINK_FACTOR) (max (fst fs * SHRINK_FACTOR) 1)) (k + 1) g2)
             else []) \<and>
        attempt_gens D opts sz sws fs k g =
          g #
            (if length sws \<noteq> length cs \<and> k \<le> MAX_LAYOUT_ATTEMPTS
             then attempt_gens D opts sz sws
                 (max (fst fs * SHRINK_FACTOR) 1,
                  max (snd fs * SHRINK_FACTOR) (max (fst fs * SHRINK_FACTOR) 1)) (k + 1) g2
             else []) \<and>
        map wrotate fws = fst (rotateWords D opts (length sws) g) \<and>
        g1 = snd (rotateWords D opts (length sws) g)"
    unfolding f c prod.case using draw_layouts_unfold[OF f c, of sel k] a r by blast
  have frame: "\<forall>(k, b, fws) \<in> set (layouts (draw D sel opts sz sws sizes 1 g0)).
      map wtext fws = map wtext sws \<and> map wvalue fws = map wvalue sws \<and>
      (\<forall>w \<in> set fws. wpadding w = padding opts \<and> font w = fontFamily opts \<and>
         style w = fontStyle opts \<and> weight w = fontWeight opts) \<and>
      map wsize fws = map (\<lambda>d. getFontScale D sws b (scale opts) (wvalue d)) sws"
  proof (clarify)
    fix k' b fws'
    assume "(k', b, fws') \<in> set (layouts (draw D sel opts sz sws sizes 1 g0))"
    from draw_layouts_formatted[OF this] obtain g' where e: "fws' = fst (formatWords D opts sws b g')" ..
    from formatWords_map_frame[of D opts "getFontScale D sws b (scale opts)" sws g']
    show "map wtext fws' = map wtext sws \<and> map wvalue fws' = map wvalue sws \<and>
      (\<forall>w \<in> set fws'. wpadding w = padding opts \<and> font w = fontFamily opts \<and>
         style w = fontStyle opts \<and> weight w = fontWeight opts) \<and>
      map wsize fws' = map (\<lambda>d. getFontScale D sws b (scale opts) (wvalue d)) sws"
      unfolding e formatWords_def by blast
  qed
  from step draw_rotations_gens[of D sel opts sz sws sizes 1 g0] frame show ?thesis by blast
qed

theorem reformat_frame_witness:
  "(2, (19 / 5, 152 / 5),
      [\<lparr>wtext = ''a'', wvalue = 10, wpadding = 1, wrotate = - 30, wsize = 152 / 5,
         font = ''times new roman'', style = ''normal'', weight = ''normal''\<rparr>,
       \<lparr>wtext = ''b'', wvalue = 1, wpadding = 1, wrotate = 0, wsize = 152 / 5,
         font = ''times new roman'', style = ''normal'', weight = ''normal''\<rparr>])
     \<in> set (layouts (draw (example_deps 0) () (defaultOptions (example_deps 0)) (300, 300)
          example_words (4, 32) 1 0)) \<and>
   map wtext
      [\<lparr>wtext = ''a'', wvalue = 10, wpadding = 1, wrotate = - 30, wsize = 152 / 5,
         font = ''times new roman'', style = ''normal'', weight = ''normal''\<rparr>,
       \<lparr>wtext = ''b'', wvalue = 1, wpadding = 1, wrotate = 0, wsize = 152 / 5,
         font = ''times new roman'', style = ''normal'', weight = ''normal''\<rparr>] =
     map wtext example_words \<and>
   map (\<lambda>(k, b, fws). map wrotate fws)
     (layouts (draw (example_deps 0) () (defaultOptions (example_deps 0)) (300, 300)
        example_words (4, 32) 1 0)) =
   map (\<lambda>g'. fst (rotateWords (example_deps 0) (defaultOptions (example_deps 0)) (length example_words) g'))
     (attempt_gens (example_deps 0) (defaultOptions (example_deps 0)) (300, 300) example_words (4, 32) 1 0) \<and>
   take 2 (attempt_gens (example_deps 0) (defaultOptions (example_deps 0)) (300, 300) example_words
     (4, 32) 1 0) = [0, 2] \<and>
   fst (rotateWords (example_deps 0) (defaultOptions (example_deps 0)) 2 2) = [- 30, 0]"
proof -
  let ?ws = "[\<lparr>wtext = ''a'', wvalue = 10, wpadding = 1, wrotate = - 30, wsize = 152 / 5,
         font = ''times new roman'', style = ''normal'', weight = ''normal''\<rparr>,
       \<lparr>wtext = ''b'', wvalue = 1, wpadding = 1, wrotate = 0, wsize = 152 / 5,
         font = ''times new roman'', style = ''normal'', weight = ''normal''\<rparr>]"
  note T = reformat_frame[where D = "example_deps 0" and opts = "defaultOptions (example_deps 0)"
      and sws = example_words and fs = "(4, 32)" and g = 0 and sz = "(300, 300)" and sel = "()"
      and k = 1 and sizes = "(4, 32)" and ?g0.0 = 0]
  have h: "(2, (19 / 5, 152 / 5), ?ws)
     \<in> set (layouts (draw (example_deps 0) () (defaultOptions (example_deps 0)) (300, 300)
          example_words (4, 32) 1 0))"
    by code_simp
  from T have F: "\<forall>(k, b, fws) \<in> set (layouts (draw (example_deps 0) () (defaultOptions (example_deps 0))
        (300, 300) example_words (4, 32) 1 0)). map wtext fws = map wtext example_words"
    by blast
  from bspec[OF F h] have t: "map wtext ?ws = map wtext example_words" by simp
  from T have R: "map (\<lambda>(k, b, fws). map wrotate fws)
     (layouts (draw (example_deps 0) () (defaultOptions (example_deps 0)) (300, 300)
        example_words (4, 32) 1 0)) =
   map (\<lambda>g'. fst (rotateWords (example_deps 0) (defaultOptions (example_deps 0)) (length example_words) g'))
     (attempt_gens (example_deps 0) (defaultOptions (example_deps 0)) (300, 300) example_words (4, 32) 1 0)"
    by blast
  have g: "take 2 (attempt_gens (example_deps 0) (defaultOptions (example_deps 0)) (300, 300) example_words
     (4, 32) 1 0) = [0, 2]"
    by code_simp
  have v: "fst (rotateWords (example_deps 0) (defaultOptions (example_deps 0)) 2 2) = [- 30, 0]"
    by code_simp
  show ?thesis by (intro conjI) (rule h t R g v)+
qed

text \<open>
  With a generator whose draws differ, the angles of the second attempt are not those of
  the first.
\<close>

theorem rotation_redrawn:
  "map (\<lambda>(k, b, fws). map wrotate fws)
     (take 2 (layouts (draw (example_deps 0) () (defaultOptions (example_deps 0)) (300, 300)
        example_words (4, 32) 1 0))) = [[- 90, - 60], [- 30, 0]]"
  by code_simp


section \<open>The run, event by event\<close>

text \<open>
  When the engine finishes every layout, the run that the debounced function starts does
  what \<open>draw\<close> does: after enough completions its log is the list of events of
  \<open>draw\<close>.  What is proved about \<open>draw\<close> above holds for such a run.
\<close>

lemma onDone_halted: "\<not> r_running r \<Longrightarrow> onDone D r = r"
  by (simp add: onDone_def)

lemma onDone_pow_halted: "\<not> r_running r \<Longrightarrow> (onDone D ^^ n) r = r"
  by (induction n) (simp_all add: onDone_halted)

lemma onDone_draw_start_retry:
  assumes "formatWords D (i_mergedOptions (r_inputs r)) (r_sortedWords r) fs (r_random r) = (fws, g1)"
    and "cloud D (spiral (i_mergedOptions (r_inputs r))) (i_size (r_inputs r))
           (batchSize (i_mergedOptions (r_inputs r))) fws g1 = (cs, g2)"
    and "length (r_sortedWords r) \<noteq> length cs \<and> k \<le> MAX_LAYOUT_ATTEMPTS"
  shows "onDone D (draw_start D fs k r) =
     draw_start D (max (fst fs * SHRINK_FACTOR) 1, max (snd fs * SHRINK_FACTOR) (max (fst fs * SHRINK_FACTOR) 1))
       (k + 1)
       (r\<lparr>r_sizes := fs, r_attempts := k, r_words := fws, r_random := g2, r_running := False,
          r_log := r_log r @ Layout k fs fws # Done k cs #
            (if k = MAX_LAYOUT_ATTEMPTS
             then [Warn (warning_message (int (length (r_sortedWords r)) - int (length cs)) k)] else []) @
            [Stop]\<rparr>)"
  using assms by (simp add: onDone_def draw_start_def stop_def Let_def)

lemma onDone_draw_start_accept:
  assumes "formatWords D (i_mergedOptions (r_inputs r)) (r_sortedWords r) fs (r_random r) = (fws, g1)"
    and "cloud D (spiral (i_mergedOptions (r_inputs r))) (i_size (r_inputs r))
           (batchSize (i_mergedOptions (r_inputs r))) fws g1 = (cs, g2)"
    and "\<not> (length (r_sortedWords r) \<noteq> length cs \<and> k \<le> MAX_LAYOUT_ATTEMPTS)"
  shows "onDone D (draw_start D fs k r) =
       r\<lparr>r_sizes := fs, r_attempts := k, r_words := fws, r_random := g2, r_running := False,
          r_log := r_log r @ [Layout k fs fws, Done k cs, Render (i_selection (r_inputs r)) cs]\<rparr>"
  using assms by (auto simp add: onDone_def draw_start_def Let_def)

lemma run_follows_draw:
  "i_selection (r_inputs r) = sel \<Longrightarrow> i_mergedOptions (r_inputs r) = opts \<Longrightarrow> i_size (r_inputs r) = sz \<Longrightarrow>
   r_sortedWords r = sws \<Longrightarrow> r_random r = g \<Longrightarrow> Suc (Suc MAX_LAYOUT_ATTEMPTS - k) \<le> n \<Longrightarrow>
   r_log ((onDone D ^^ n) (draw_start D fs k r)) = r_log r @ draw D sel opts sz sws fs k g"
proof (induction D sel opts sz sws fs k g arbitrary: r n rule: draw.induct)
  case (1 D sel opts sz sws fs k g)
  obtain fws g1 where f: "formatWords D opts sws fs g = (fws, g1)" by (cases "formatWords D opts sws fs g")
  obtain cs g2 where c: "cloud D (spiral opts) sz (batchSize opts) fws g1 = (cs, g2)"
    by (cases "cloud D (spiral opts) sz (batchSize opts) fws g1")
  from f "1.prems" have f': "formatWords D (i_mergedOptions (r_inputs r)) (r_sortedWords r) fs (r_random r) = (fws, g1)"
    by simp
  from c "1.prems" have c': "cloud D (spiral (i_mergedOptions (r_inputs r))) (i_size (r_inputs r))
           (batchSize (i_mergedOptions (r_inputs r))) fws g1 = (cs, g2)" by simp
  from "1.prems"(6) obtain m where n: "n = Suc m" by (cases n) simp_all
  have p: "(onDone D ^^ n) (draw_start D fs k r) = (onDone D ^^ m) (onDone D (draw_start D fs k r))"
    by (simp add: n funpow_swap1)
  let ?fs' = "(max (fst fs * SHRINK_FACTOR) 1, max (snd fs * SHRINK_FACTOR) (max (fst fs * SHRINK_FACTOR) 1))"
  show ?case
  proof (cases "length sws \<noteq> length cs \<and> k \<le> MAX_LAYOUT_ATTEMPTS")
    case True
    then have T: "length (r_sortedWords r) \<noteq> length cs \<and> k \<le> MAX_LAYOUT_ATTEMPTS"
      using "1.prems" by simp
    let ?r' = "r\<lparr>r_sizes := fs, r_attempts := k, r_words := fws, r_random := g2, r_running := False,
          r_log := r_log r @ Layout k fs fws # Done k cs #
            (if k = MAX_LAYOUT_ATTEMPTS
             then [Warn (warning_message (int (length (r_sortedWords r)) - int (length cs)) k)] else []) @
            [Stop]\<rparr>"
    from True "1.prems"(6) n have m: "Suc (Suc MAX_LAYOUT_ATTEMPTS - (k + 1)) \<le> m" by linarith
    have "r_log ((onDone D ^^ m) (draw_start D ?fs' (k + 1) ?r')) =
        r_log ?r' @ draw D sel opts sz sws ?fs' (k + 1) g2"
      by (rule "1.IH"[OF f[symmetric] refl c[symmetric] refl True refl refl _ _ _ _ _ m])
        (simp_all add: "1.prems")
    then show ?thesis
      unfolding p onDone_draw_start_retry[OF f' c' T] draw_retry[OF f c True]
      using "1.prems" by simp
  next
    case False
    then have F: "\<not> (length (r_sortedWords r) \<noteq> length cs \<and> k \<le> MAX_LAYOUT_ATTEMPTS)"
      using "1.prems" by simp
    show ?thesis
      unfolding p onDone_draw_start_accept[OF f' c' F] draw_accept[OF f c False]
      using "1.prems" by (simp add: onDone_pow_halted)
  qed
qed

lemma pipeline_follows_draw:
  "Suc MAX_LAYOUT_ATTEMPTS \<le> n \<Longrightarrow> r_log ((onDone D ^^ n) (pipeline D e inp)) = pipeline_events D e inp"
  unfolding pipeline_def pipeline_events_def Let_def
  by (subst run_follows_draw) simp_all


section \<open>Cancellation\<close>

lemma projections_snoc_Stop:
  "layouts (es @ [Stop]) = layouts es" "dones (es @ [Stop]) = dones es"
  "warnings (es @ [Stop]) = warnings es" "renders (es @ [Stop]) = renders es"
  by (simp_all add: layouts_append dones_append warnings_append renders_append)

lemma observed_stop: "observed (stop r) = observed r"
  by (simp add: observed_def stop_def projections_snoc_Stop)

lemma running_stop: "\<not> r_running (stop r)"
  by (simp add: stop_def)

lemma invoke_handle_halted:
  assumes "i < length (runs c)" "j = i \<or> \<not> r_running (runs c ! i)"
  shows "halted i (invoke_handle j c) \<and> observed (runs (invoke_handle j c) ! i) = observed (runs c ! i)"
proof (cases "j = i")
  case True
  with assms(1) show ?thesis
    by (simp add: invoke_handle_def halted_def observed_stop running_stop)
next
  case False
  with assms show ?thesis
    by (simp add: invoke_handle_def halted_def)
qed

lemma run_cleanup_halted:
  assumes "halted i c"
  shows "halted i (run_cleanup c) \<and> observed (runs (run_cleanup c) ! i) = observed (runs c ! i)"
proof (cases "cleanup c")
  case None
  with assms show ?thesis by (simp add: run_cleanup_def)
next
  case (Some j)
  from assms have "i < length (runs c)" "j = i \<or> \<not> r_running (runs c ! i)"
    by (simp_all add: halted_def)
  from invoke_handle_halted[OF this] Some show ?thesis
    by (simp add: run_cleanup_def halted_def)
qed

lemma runs_Wordcloud: "runs (Wordcloud D ns t p sel sz c) = runs (run_cleanup c)"
  by (simp add: Wordcloud_def Let_def split: option.splits prod.splits)

lemma timer_fires_runs:
  "runs (timer_fires D t e c) = runs c \<or> (\<exists>a. runs (timer_fires D t e c) = runs c @ [pipeline D e a])"
  by (auto simp: timer_fires_def split: option.splits prod.splits)

lemma step_halted:
  assumes "halted i c"
  shows "halted i (step D ns a c) \<and> observed (runs (step D ns a c) ! i) = observed (runs c ! i)"
proof (cases a)
  case (Rendered t p sel sz)
  from run_cleanup_halted[OF assms] show ?thesis
    by (simp add: Rendered halted_def runs_Wordcloud)
next
  case Unmount
  from run_cleanup_halted[OF assms] show ?thesis by (simp add: Unmount)
next
  case (TimerFires t e)
  from timer_fires_runs[of D t e c] assms show ?thesis
    by (auto simp: TimerFires halted_def nth_append)
next
  case (EngineDone j)
  from assms show ?thesis
    by (cases "j = i") (simp_all add: EngineDone engine_done_def halted_def onDone_halted)
qed

lemma exec_halted:
  "halted i c \<Longrightarrow>
     halted i (exec D ns acts c) \<and> observed (runs (exec D ns acts c) ! i) = observed (runs c ! i)"
proof (induction acts arbitrary: c)
  case Nil
  then show ?case by simp
next
  case (Cons a acts)
  from step_halted[OF Cons.prems, of D ns a]
  have s: "halted i (step D ns a c)" "observed (runs (step D ns a c) ! i) = observed (runs c ! i)"
    by simp_all
  from Cons.IH[OF s(1)] s(2) show ?case by simp
qed

text \<open>
  Claim C3, amended.  The closure that a pipeline run returns, when it is called, stops
  the layout that run has at work: whatever happens to the instance afterwards, that run
  starts no layout, gets no result, warns no more and does not call the renderer.  The
  call leaves the debounced function as it is, a pending execution included.
\<close>

theorem handle_stops_its_run:
  assumes "i < length (runs c)"
  shows "reRender (invoke_handle i c) = reRender c \<and>
         \<not> r_running (runs (exec D ns acts (invoke_handle i c)) ! i) \<and>
         layouts (r_log (runs (exec D ns acts (invoke_handle i c)) ! i)) = layouts (r_log (runs c ! i)) \<and>
         dones (r_log (runs (exec D ns acts (invoke_handle i c)) ! i)) = dones (r_log (runs c ! i)) \<and>
         warnings (r_log (runs (exec D ns acts (invoke_handle i c)) ! i)) = warnings (r_log (runs c ! i)) \<and>
         renders (r_log (runs (exec D ns acts (invoke_handle i c)) ! i)) = renders (r_log (runs c ! i))"
proof -
  from invoke_handle_halted[OF assms, of i]
  have h: "halted i (invoke_handle i c)" "observed (runs (invoke_handle i c) ! i) = observed (runs c ! i)"
    by simp_all
  from exec_halted[OF h(1), of D ns acts] h(2)
  have "halted i (exec D ns acts (invoke_handle i c))"
    "observed (runs (exec D ns acts (invoke_handle i c)) ! i) = observed (runs c ! i)"
    by simp_all
  then show ?thesis by (simp add: observed_def halted_def invoke_handle_def)
qed

theorem handle_stops_its_run_witness:
  "0 < length (runs in_flight) \<and>
   renders (r_log (runs (exec (example_deps 30) number_string [EngineDone 0, EngineDone 0, EngineDone 0]
      (invoke_handle 0 in_flight)) ! 0)) = [] \<and>
   length (renders (r_log (runs (exec (example_deps 30) number_string [EngineDone 0, EngineDone 0, EngineDone 0]
      in_flight) ! 0))) = 1"
proof -
  have h: "0 < length (runs in_flight)" by code_simp
  have e: "renders (r_log (runs in_flight ! 0)) = []" by code_simp
  have u: "length (renders (r_log (runs (exec (example_deps 30) number_string
      [EngineDone 0, EngineDone 0, EngineDone 0] in_flight) ! 0))) = 1"
    by code_simp
  from handle_stops_its_run[OF h, of "example_deps 30" number_string
      "[EngineDone 0, EngineDone 0, EngineDone 0]"] h e u
  show ?thesis by simp
qed

text \<open>
  What the effect returns is what the debounced function returns: nothing at the first
  rendering, and at the second rendering the closure of the run that the first one
  started.  When the instance is unmounted after the second rendering, React calls that
  closure; the timer stays pending, fires at \<open>300\<close>, and the run for the second
  rendering calls the renderer.
\<close>

theorem returned_handle_is_stale:
  "cleanup (exec (example_deps 30) number_string
      [Rendered 0 (example_props 100 example_words) (Some ()) (300, 300)] mount) = None \<and>
   cleanup (exec (example_deps 30) number_string (first_submission @ second_submission) mount) = Some 0 \<and>
   map_option timerId (reRender (exec (example_deps 30) number_string
      (first_submission @ second_submission @ [Unmount]) mount)) = Some (Some 300) \<and>
   length (renders (r_log (runs (exec (example_deps 30) number_string
      (first_submission @ second_submission @ unmount_then_timer) mount) ! 1))) = 1 \<and>
   map wtext (r_sortedWords (runs (exec (example_deps 30) number_string
      (first_submission @ second_submission @ unmount_then_timer) mount) ! 1)) = [''b'', ''a'', ''c'']"
  by code_simp


section \<open>Debouncing\<close>

lemma debounced_wait: "d_wait (snd (debounced t a d)) = d_wait d"
  by (simp add: debounced_def Let_def)

lemma timerExpired_wait: "d_wait (snd (timerExpired t d)) = d_wait d"
  by (simp add: timerExpired_def)

lemma reRender_invoke_handle: "reRender (invoke_handle i c) = reRender c"
  by (simp add: invoke_handle_def)

lemma reRender_run_cleanup: "reRender (run_cleanup c) = reRender c"
  by (simp add: run_cleanup_def reRender_invoke_handle split: option.splits)

lemma Wordcloud_reRender:
  "reRender (Wordcloud D ns t p sel sz c) =
     Some (case sel of
             None \<Rightarrow> useRef (reRender c) (debounce (renderDebounce (mergeOptions (defaultOptions D) (props_options p))))
           | Some s \<Rightarrow> snd (debounced t (effect_inputs D ns p s sz)
               (useRef (reRender c) (debounce (renderDebounce (mergeOptions (defaultOptions D) (props_options p)))))))"
  by (simp add: Wordcloud_def Let_def split: option.splits prod.splits)

lemma useRef_wait:
  "d_wait (useRef r (debounce w)) = (case r of None \<Rightarrow> w | Some d \<Rightarrow> d_wait d)"
  by (simp add: useRef_def debounce_def split: option.splits)

lemma Wordcloud_wait:
  "map_option d_wait (reRender (Wordcloud D ns t p sel sz c)) =
     Some (case reRender c of None \<Rightarrow> renderDebounce (mergeOptions (defaultOptions D) (props_options p))
           | Some d \<Rightarrow> d_wait d)"
  by (simp add: Wordcloud_reRender debounced_wait useRef_wait split: option.splits)

lemma timer_fires_wait:
  "map_option d_wait (reRender (timer_fires D t e c)) = map_option d_wait (reRender c)"
proof (cases "reRender c")
  case None
  then show ?thesis by (simp add: timer_fires_def)
next
  case (Some d)
  obtain a d' where x: "timerExpired t d = (a, d')" by (cases "timerExpired t d")
  with timerExpired_wait[of t d] have "d_wait d' = d_wait d" by simp
  then show ?thesis using Some x
    by (simp add: timer_fires_def split: option.splits)
qed

lemma step_wait:
  "reRender c = Some d \<Longrightarrow> map_option d_wait (reRender (step D ns a c)) = Some (d_wait d)"
proof (cases a)
  case (Rendered t p sel sz)
  assume "reRender c = Some d"
  then show ?thesis using Wordcloud_wait[of D ns t p sel sz c] Rendered by simp
next
  case Unmount
  assume "reRender c = Some d"
  then show ?thesis using Unmount by (simp add: reRender_run_cleanup)
next
  case (TimerFires t e)
  assume "reRender c = Some d"
  then show ?thesis using timer_fires_wait[of D t e c] TimerFires by simp
next
  case (EngineDone i)
  assume "reRender c = Some d"
  then show ?thesis using EngineDone by (simp add: engine_done_def)
qed

lemma exec_wait:
  "reRender c = Some d \<Longrightarrow> map_option d_wait (reRender (exec D ns acts c)) = Some (d_wait d)"
proof (induction acts arbitrary: c d)
  case Nil
  then show ?case by simp
next
  case (Cons a acts)
  from step_wait[OF Cons.prems, of D ns a]
  obtain d' where d': "reRender (step D ns a c) = Some d'" "d_wait d' = d_wait d" by auto
  from Cons.IH[OF d'(1)] d'(2) show ?case by simp
qed














text \<open>
  Claim C10.  The debounced function that the ref holds is the one built at the first
  rendering, with \<open>renderDebounce\<close> of the options merged at that rendering; after
  whatever renderings and other events follow, its interval is still that value.
\<close>

theorem debounce_interval_fixed:
  "map_option d_wait (reRender (exec D ns (Rendered t p sel sz # acts) mount)) =
     Some (renderDebounce (mergeOptions (defaultOptions D) (props_options p)))"
proof -
  from Wordcloud_wait[of D ns t p sel sz mount]
  obtain d where d: "reRender (step D ns (Rendered t p sel sz) mount) = Some d"
    "d_wait d = renderDebounce (mergeOptions (defaultOptions D) (props_options p))"
    by (auto simp: mount_def)
  from exec_wait[OF d(1), of D ns acts] d(2) show ?thesis by simp
qed

text \<open>
  A second rendering at \<open>50\<close> asks for \<open>500\<close> milliseconds; the pipeline still runs at
  \<open>150\<close>, one interval of \<open>100\<close> after that rendering.
\<close>

lemma changed_renderDebounce_example:
  "length (runs (exec (example_deps 30) number_string
     [Rendered 0 (example_props 100 example_words) (Some ()) (300, 300),
      Rendered 50 (example_props 500 example_words) (Some ()) (300, 300),
      TimerFires 150 0] mount)) = 1"
  by code_simp


end
